theory Spec2Isabelle
  imports Complex_Main "HOL-Library.AList" "HOL-Library.Multiset"
begin

section \<open>Values, strings and object keys\<close>

text \<open>
  The server (\<^verbatim>\<open>server.js\<close>) keeps two JavaScript objects, \<^verbatim>\<open>quizzes\<close> and
  \<^verbatim>\<open>rooms\<close>, and reacts to socket events. An uncaught exception in an event handler
  ends the Node process, so every handler returns either \<open>Inl TypeError\<close> or the new
  state together with the messages it emitted.

  Event payloads have the shapes the handlers destructure: room codes and names are
  strings (ASCII strings here), an answer is any value. Socket ids are the
  identifiers the transport generates (20 characters); such a string is never an
  array-index key, and it is taken not to be the name of a member of
  \<^verbatim>\<open>Object.prototype\<close>. Room codes in requests come from clients and are arbitrary
  strings.
\<close>

type_synonym socket_id = string
type_synonym room_code = string

text \<open>\<^verbatim>\<open>quiz-${Date.now()}\<close> is represented by the number \<^verbatim>\<open>Date.now()\<close>.\<close>

type_synonym quiz_id = nat

datatype error = TypeError

text \<open>
  A value received from a client. Objects and arrays arrive deserialised, so they are
  fresh references: \<^verbatim>\<open>===\<close> between two of them is false.
\<close>

datatype jsval = JUndefined | JNull | JBool bool | JNum rat | JStr string | JObject

fun strict_eq :: "jsval \<Rightarrow> jsval \<Rightarrow> bool" where
  "strict_eq JUndefined JUndefined = True"
| "strict_eq JNull JNull = True"
| "strict_eq (JBool a) (JBool b) = (a = b)"
| "strict_eq (JNum a) (JNum b) = (a = b)"
| "strict_eq (JStr a) (JStr b) = (a = b)"
| "strict_eq _ _ = False"

definition lower_letters :: string where
  "lower_letters = ''abcdefghijklmnopqrstuvwxyz''"

definition upper_letters :: string where
  "upper_letters = ''ABCDEFGHIJKLMNOPQRSTUVWXYZ''"

definition toUpperCase_char :: "char \<Rightarrow> char" where
  "toUpperCase_char c =
     (case map_of (zip lower_letters upper_letters) c of Some u \<Rightarrow> u | None \<Rightarrow> c)"

definition toLowerCase_char :: "char \<Rightarrow> char" where
  "toLowerCase_char c =
     (case map_of (zip upper_letters lower_letters) c of Some l \<Rightarrow> l | None \<Rightarrow> c)"

definition toUpperCase :: "string \<Rightarrow> string" where
  "toUpperCase s = map toUpperCase_char s"

definition toLowerCase :: "string \<Rightarrow> string" where
  "toLowerCase s = map toLowerCase_char s"

text \<open>\<^verbatim>\<open>s.substring(2, 6)\<close>\<close>

definition substring_2_6 :: "string \<Rightarrow> string" where
  "substring_2_6 s = take 4 (drop 2 s)"

text \<open>
  An object is an association list in insertion order (\<open>AList.update\<close> keeps the
  place of an existing key and appends a new one, \<open>AList.delete\<close> removes it).
  \<^verbatim>\<open>for ... in\<close> visits the own keys of an object with the array-index keys first,
  in ascending numeric order, and then the other keys in insertion order. A room code
  such as \<open>1234\<close> is an array-index key.
\<close>

definition digit_value :: "char \<Rightarrow> nat option" where
  "digit_value c = map_of (zip ''0123456789'' [0, 1, 2, 3, 4, 5, 6, 7, 8, 9]) c"

definition digits_value :: "string \<Rightarrow> nat" where
  "digits_value k = foldl (\<lambda>n c. 10 * n + (case digit_value c of Some d \<Rightarrow> d | None \<Rightarrow> 0)) 0 k"

definition is_array_index :: "string \<Rightarrow> bool" where
  "is_array_index k =
     (k \<noteq> [] \<and> list_all (\<lambda>c. digit_value c \<noteq> None) k
      \<and> (k = ''0'' \<or> hd k \<noteq> CHR ''0'')
      \<and> digits_value k < 2 ^ 32 - 1)"

definition own_keys :: "(string \<times> 'a) list \<Rightarrow> string list" where
  "own_keys obj =
     sort_key digits_value (filter is_array_index (map fst obj))
     @ filter (\<lambda>k. \<not> is_array_index k) (map fst obj)"

text \<open>The members every object inherits from \<^verbatim>\<open>Object.prototype\<close>; all are truthy.\<close>

definition Object_prototype_keys :: "string list" where
  "Object_prototype_keys =
     [''constructor'', ''hasOwnProperty'', ''isPrototypeOf'', ''propertyIsEnumerable'',
      ''toLocaleString'', ''toString'', ''valueOf'', ''__proto__'',
      ''__defineGetter__'', ''__defineSetter__'', ''__lookupGetter__'',
      ''__lookupSetter__'']"

text \<open>\<^verbatim>\<open>xs[i]\<close> for a number \<open>i\<close>: \<^verbatim>\<open>undefined\<close> out of range.\<close>

definition index_opt :: "'a list \<Rightarrow> int \<Rightarrow> 'a option" where
  "index_opt xs i = (if 0 \<le> i \<and> i < int (length xs) then Some (xs ! nat i) else None)"

text \<open>\<^verbatim>\<open>xs.findIndex(p)\<close> (\<open>None\<close> for \<open>-1\<close>) and \<^verbatim>\<open>xs.splice(i, 1)\<close>.\<close>

fun findIndex :: "('a \<Rightarrow> bool) \<Rightarrow> 'a list \<Rightarrow> nat option" where
  "findIndex p [] = None"
| "findIndex p (x # xs) =
     (if p x then Some 0 else (case findIndex p xs of None \<Rightarrow> None | Some i \<Rightarrow> Some (Suc i)))"

definition splice1 :: "nat \<Rightarrow> 'a list \<Rightarrow> 'a list" where
  "splice1 i xs = take i xs @ drop (Suc i) xs"

text \<open>
  \<^verbatim>\<open>xs.sort(cmp)\<close> on a fresh array. The sort is stable, and for a consistent
  comparator the result is determined: it is the one insertion sort produces.
\<close>

fun insort_cmp :: "('a \<Rightarrow> 'a \<Rightarrow> int) \<Rightarrow> 'a \<Rightarrow> 'a list \<Rightarrow> 'a list" where
  "insort_cmp cmp x [] = [x]"
| "insort_cmp cmp x (y # ys) =
     (if cmp x y \<le> 0 then x # y # ys else y # insort_cmp cmp x ys)"

definition js_sort :: "('a \<Rightarrow> 'a \<Rightarrow> int) \<Rightarrow> 'a list \<Rightarrow> 'a list" where
  "js_sort cmp xs = foldr (insort_cmp cmp) xs []"

section \<open>Data model\<close>

record quiz_question =
  prompt :: string
  choices :: "string list"
  correctAnswer :: jsval
  timeLimit :: nat

record quiz =
  quiz_title :: string
  questions :: "quiz_question list"

text \<open>\<^verbatim>\<open>{ id, name, score }\<close>\<close>

record player =
  p_id :: socket_id
  p_name :: string
  p_score :: int

text \<open>\<^verbatim>\<open>{ question, answer, correct }\<close>\<close>

record answer_record =
  question :: int
  answer :: jsval
  correct :: bool

text \<open>\<^verbatim>\<open>{ name, score, answers }\<close>\<close>

record entry =
  name :: string
  score :: int
  answers :: "answer_record list"

text \<open>
  A room object. \<open>rid\<close> is the identity of the object (a timer callback keeps a
  reference to the room it was armed for); \<open>timer\<close> is \<open>None\<close> until the first timer
  is armed, and afterwards holds the handle of the last one, fired or not.
\<close>

record room =
  rid :: nat
  quizId :: quiz_id
  title :: string
  players :: "player list"
  currentQuestion :: int
  leaderboard :: "(socket_id \<times> entry) list"
  hostId :: socket_id
  timer :: "nat option"

text \<open>
  The callbacks the event loop holds: the question timer of \<open>startQuestionTimer\<close>
  (it captures the room code, the room object and the question) and the 2.5 second
  delay before \<open>nextQuestion\<close>. Each is stored with its delay in milliseconds.
\<close>

datatype timer_cb = QuestionTimer room_code nat quiz_question | GraceDelay room_code

record state =
  quizzes :: "(quiz_id \<times> quiz) list"
  rooms :: "(room_code \<times> room) list"
  pending :: "(nat \<times> nat \<times> timer_cb) list"
  next_handle :: nat
  next_rid :: nat
  detached :: "(nat \<times> room) list"

text \<open>
  \<open>detached\<close> holds the room objects that are no longer in \<open>rooms\<close> (deleted, or
  overwritten by a new room with the same code); nothing changes them any more.
\<close>

datatype target = ToRoom room_code | ToSocket socket_id

datatype payload =
    QuizCreated room_code quiz_id
  | NewQuestion "quiz_question option"
  | QuestionTimeout jsval "(socket_id \<times> entry) list"
  | QuizFinished "entry list"
  | JoinError string
  | JoinedRoom room_code string "player list"
  | PlayerJoined "player list" string
  | UpdateLeaderboard "entry list"
  | ScoreUpdate int
  | HostDisconnected

type_synonym emission = "target \<times> payload"

definition init :: state where
  "init = \<lparr>quizzes = [], rooms = [], pending = [], next_handle = 0, next_rid = 0,
           detached = []\<rparr>"

section \<open>Lookup in the room table\<close>

text \<open>
  \<^verbatim>\<open>rooms[roomCode]\<close>: the room stored under the code, or a member inherited from
  \<^verbatim>\<open>Object.prototype\<close> (truthy, and without any of a room's properties), or
  \<^verbatim>\<open>undefined\<close>.
\<close>

datatype room_lookup = Own room | Inherited | Absent

definition rooms_get :: "state \<Rightarrow> room_code \<Rightarrow> room_lookup" where
  "rooms_get st roomCode =
     (case map_of (rooms st) roomCode of
        Some r \<Rightarrow> Own r
      | None \<Rightarrow> if roomCode \<in> set Object_prototype_keys then Inherited else Absent)"

definition rooms_set :: "room_code \<Rightarrow> room \<Rightarrow> state \<Rightarrow> state" where
  "rooms_set roomCode r st = st\<lparr>rooms := AList.update roomCode r (rooms st)\<rparr>"

definition clearTimeout :: "nat \<Rightarrow> state \<Rightarrow> state" where
  "clearTimeout h st = st\<lparr>pending := AList.delete h (pending st)\<rparr>"

definition setTimeout :: "timer_cb \<Rightarrow> nat \<Rightarrow> state \<Rightarrow> nat \<times> state" where
  "setTimeout cb ms st =
     (next_handle st,
      st\<lparr>pending := pending st @ [(next_handle st, ms, cb)],
         next_handle := Suc (next_handle st)\<rparr>)"

text \<open>
  \<^verbatim>\<open>Object.values(room.leaderboard).sort((a, b) => b.score - a.score)\<close>. The keys of
  a leaderboard are socket ids, none of them an array-index key, so \<^verbatim>\<open>Object.values\<close>
  lists the entries in insertion order.
\<close>

definition Object_values :: "(string \<times> 'a) list \<Rightarrow> 'a list" where
  "Object_values obj = map snd obj"

definition sortedLeaderboard :: "(socket_id \<times> entry) list \<Rightarrow> entry list" where
  "sortedLeaderboard lb = js_sort (\<lambda>a b. score b - score a) (Object_values lb)"

section \<open>The handlers\<close>

definition startQuestionTimer :: "state \<Rightarrow> room_code \<Rightarrow> error + state" where
  "startQuestionTimer st roomCode =
     (case rooms_get st roomCode of
        Absent \<Rightarrow> Inr st
      | Inherited \<Rightarrow> Inl TypeError
      | Own r \<Rightarrow>
          let st1 = (case timer r of Some h \<Rightarrow> clearTimeout h st | None \<Rightarrow> st) in
          (case map_of (quizzes st1) (quizId r) of
             None \<Rightarrow> Inl TypeError
           | Some qz \<Rightarrow>
               (case index_opt (questions qz) (currentQuestion r) of
                  None \<Rightarrow> Inl TypeError
                | Some q \<Rightarrow>
                    let (h, st2) = setTimeout (QuestionTimer roomCode (rid r) q)
                                     (timeLimit q * 1000) st1
                    in Inr (rooms_set roomCode (r\<lparr>timer := Some h\<rparr>) st2))))"

definition nextQuestion :: "state \<Rightarrow> room_code \<Rightarrow> error + state \<times> emission list" where
  "nextQuestion st roomCode =
     (case rooms_get st roomCode of
        Absent \<Rightarrow> Inr (st, [])
      | Inherited \<Rightarrow> Inl TypeError
      | Own r \<Rightarrow>
          let r1 = r\<lparr>currentQuestion := currentQuestion r + 1\<rparr>;
              st1 = rooms_set roomCode r1 st;
              currentQuestionIndex = currentQuestion r1
          in (case map_of (quizzes st1) (quizId r1) of
                None \<Rightarrow> Inl TypeError
              | Some currentQuiz \<Rightarrow>
                  if currentQuestionIndex < int (length (questions currentQuiz)) then
                    (case startQuestionTimer st1 roomCode of
                       Inl e \<Rightarrow> Inl e
                     | Inr st2 \<Rightarrow>
                         Inr (st2, [(ToRoom roomCode,
                                NewQuestion (index_opt (questions currentQuiz)
                                               currentQuestionIndex))]))
                  else
                    Inr (st1, [(ToRoom roomCode,
                                QuizFinished (sortedLeaderboard (leaderboard r1)))])))"

definition createQuiz ::
    "state \<Rightarrow> socket_id \<Rightarrow> quiz \<Rightarrow> nat \<Rightarrow> string \<Rightarrow> error + state \<times> emission list" where
  "createQuiz st sid quizData now rnd =
     (let quizId' = now;
          roomCode = toUpperCase (substring_2_6 rnd);
          old = (case map_of (rooms st) roomCode of
                   None \<Rightarrow> [] | Some r \<Rightarrow> [(rid r, r)]);
          r = \<lparr>rid = next_rid st, quizId = quizId', title = quiz_title quizData,
               players = [], currentQuestion = - 1, leaderboard = [], hostId = sid,
               timer = None\<rparr>
      in Inr (st\<lparr>quizzes := AList.update quizId' quizData (quizzes st),
                 rooms := AList.update roomCode r (rooms st),
                 next_rid := Suc (next_rid st),
                 detached := old @ detached st\<rparr>,
              [(ToSocket sid, QuizCreated roomCode quizId')]))"

definition startQuiz :: "state \<Rightarrow> room_code \<Rightarrow> error + state \<times> emission list" where
  "startQuiz st roomCode =
     (case rooms_get st roomCode of
        Absent \<Rightarrow> Inr (st, [])
      | Inherited \<Rightarrow> Inl TypeError
      | Own r \<Rightarrow>
          let r1 = r\<lparr>currentQuestion := 0\<rparr>;
              st1 = rooms_set roomCode r1 st
          in (case map_of (quizzes st1) (quizId r1) of
                None \<Rightarrow> Inl TypeError
              | Some currentQuiz \<Rightarrow>
                  (case startQuestionTimer st1 roomCode of
                     Inl e \<Rightarrow> Inl e
                   | Inr st2 \<Rightarrow>
                       Inr (st2, [(ToRoom roomCode,
                              NewQuestion (index_opt (questions currentQuiz) 0))]))))"

definition joinQuiz ::
    "state \<Rightarrow> socket_id \<Rightarrow> room_code \<Rightarrow> string \<Rightarrow> error + state \<times> emission list" where
  "joinQuiz st sid roomCode nm =
     (let normalizedRoomCode = toUpperCase roomCode in
      case rooms_get st normalizedRoomCode of
        Absent \<Rightarrow>
          Inr (st, [(ToSocket sid, JoinError ''Room not found. Please check the code.'')])
      | Inherited \<Rightarrow> Inl TypeError
      | Own r \<Rightarrow>
          let pl = \<lparr>p_id = sid, p_name = nm, p_score = 0\<rparr>;
              r1 = r\<lparr>players := players r @ [pl]\<rparr>;
              r2 = r1\<lparr>leaderboard :=
                        AList.update sid \<lparr>name = nm, score = 0, answers = []\<rparr>
                          (leaderboard r1)\<rparr>
          in Inr (rooms_set normalizedRoomCode r2 st,
                  [(ToSocket sid, JoinedRoom normalizedRoomCode (title r2) (players r2)),
                   (ToRoom normalizedRoomCode, PlayerJoined (players r2) (title r2))]))"

definition submitAnswer ::
    "state \<Rightarrow> socket_id \<Rightarrow> room_code \<Rightarrow> jsval \<Rightarrow> error + state \<times> emission list" where
  "submitAnswer st sid roomCode ans =
     (case rooms_get st roomCode of
        Absent \<Rightarrow> Inr (st, [])
      | Inherited \<Rightarrow> Inl TypeError
      | Own r \<Rightarrow>
          let playerAnswers = (case map_of (leaderboard r) sid of
                                 Some e \<Rightarrow> answers e | None \<Rightarrow> []);
              hasAnsweredCurrentQuestion =
                list_ex (\<lambda>a. question a = currentQuestion r) playerAnswers
          in if hasAnsweredCurrentQuestion then Inr (st, [])
             else
               (case map_of (quizzes st) (quizId r) of
                  None \<Rightarrow> Inl TypeError
                | Some qz \<Rightarrow>
                    (case index_opt (questions qz) (currentQuestion r) of
                       None \<Rightarrow> Inl TypeError
                     | Some cq \<Rightarrow>
                         let isCorrect = strict_eq ans (correctAnswer cq);
                             lb1 = (case map_of (leaderboard r) sid of
                                      None \<Rightarrow> leaderboard r
                                    | Some e \<Rightarrow>
                                        let e1 = e\<lparr>answers := answers e @
                                                   [\<lparr>question = currentQuestion r,
                                                     answer = ans,
                                                     correct = isCorrect\<rparr>]\<rparr>;
                                            e2 = (if isCorrect
                                                  then e1\<lparr>score := score e1 + 10\<rparr>
                                                  else e1)
                                        in AList.update sid e2 (leaderboard r));
                             r1 = r\<lparr>leaderboard := lb1\<rparr>;
                             st1 = rooms_set roomCode r1 st;
                             toHost = (if hostId r1 \<noteq> []
                                       then [(ToSocket (hostId r1),
                                              UpdateLeaderboard (sortedLeaderboard lb1))]
                                       else []);
                             playerScore = (case map_of lb1 sid of
                                              Some e \<Rightarrow> score e | None \<Rightarrow> 0)
                         in Inr (st1, toHost @ [(ToSocket sid, ScoreUpdate playerScore)]))))"

text \<open>
  The \<^verbatim>\<open>disconnect\<close> handler: the loop over the keys of \<open>rooms\<close>, stopped
  (\<^verbatim>\<open>break\<close>) at the first room whose host or player the socket is.
\<close>

fun disconnect_loop ::
    "socket_id \<Rightarrow> room_code list \<Rightarrow> state \<Rightarrow> state \<times> emission list" where
  "disconnect_loop sid [] st = (st, [])"
| "disconnect_loop sid (roomCode # rest) st =
     (case map_of (rooms st) roomCode of
        None \<Rightarrow> disconnect_loop sid rest st
      | Some r \<Rightarrow>
          if hostId r = sid then
            (let st1 = (case timer r of Some h \<Rightarrow> clearTimeout h st | None \<Rightarrow> st)
             in (st1\<lparr>rooms := AList.delete roomCode (rooms st1),
                     quizzes := AList.delete (quizId r) (quizzes st1),
                     detached := (rid r, r) # detached st1\<rparr>,
                 [(ToRoom roomCode, HostDisconnected)]))
          else
            (case findIndex (\<lambda>p. p_id p = sid) (players r) of
               None \<Rightarrow> disconnect_loop sid rest st
             | Some playerIndex \<Rightarrow>
                 let r1 = r\<lparr>players := splice1 playerIndex (players r)\<rparr>;
                     r2 = r1\<lparr>leaderboard := AList.delete sid (leaderboard r1)\<rparr>
                 in (rooms_set roomCode r2 st,
                     [(ToRoom roomCode, PlayerJoined (players r2) (title r2))])))"

definition disconnect :: "state \<Rightarrow> socket_id \<Rightarrow> error + state \<times> emission list" where
  "disconnect st sid = Inr (disconnect_loop sid (own_keys (rooms st)) st)"

text \<open>
  A pending callback runs. The question timer reads the leaderboard of the room
  object it captured, which is the room in \<open>rooms\<close> when that is the same object and
  a detached room otherwise.
\<close>

definition captured_leaderboard ::
    "state \<Rightarrow> room_code \<Rightarrow> nat \<Rightarrow> (socket_id \<times> entry) list" where
  "captured_leaderboard st roomCode i =
     (case map_of (rooms st) roomCode of
        Some r \<Rightarrow> if rid r = i then leaderboard r
                  else (case map_of (detached st) i of
                          Some d \<Rightarrow> leaderboard d | None \<Rightarrow> [])
      | None \<Rightarrow> (case map_of (detached st) i of Some d \<Rightarrow> leaderboard d | None \<Rightarrow> []))"

definition fire :: "state \<Rightarrow> nat \<Rightarrow> error + state \<times> emission list" where
  "fire st h =
     (case map_of (pending st) h of
        None \<Rightarrow> Inr (st, [])
      | Some (ms, cb) \<Rightarrow>
          let st1 = clearTimeout h st in
          (case cb of
             QuestionTimer roomCode i q \<Rightarrow>
               Inr (snd (setTimeout (GraceDelay roomCode) 2500 st1),
                    [(ToRoom roomCode,
                      QuestionTimeout (correctAnswer q)
                        (captured_leaderboard st1 roomCode i))])
           | GraceDelay roomCode \<Rightarrow> nextQuestion st1 roomCode))"

section \<open>Runs of the server\<close>

datatype event =
    CreateQuiz socket_id quiz nat string
  | StartQuiz room_code
  | NextQuestion room_code
  | JoinQuiz socket_id room_code string
  | SubmitAnswer socket_id room_code jsval
  | Disconnect socket_id
  | TimerFired nat

fun handle :: "state \<Rightarrow> event \<Rightarrow> error + state \<times> emission list" where
  "handle st (CreateQuiz sid quizData now rnd) = createQuiz st sid quizData now rnd"
| "handle st (StartQuiz roomCode) = startQuiz st roomCode"
| "handle st (NextQuestion roomCode) = nextQuestion st roomCode"
| "handle st (JoinQuiz sid roomCode nm) = joinQuiz st sid roomCode nm"
| "handle st (SubmitAnswer sid roomCode ans) = submitAnswer st sid roomCode ans"
| "handle st (Disconnect sid) = disconnect st sid"
| "handle st (TimerFired h) = fire st h"

inductive reachable :: "state \<Rightarrow> bool" where
  reachable_init: "reachable init"
| reachable_step: "reachable st \<Longrightarrow> handle st ev = Inr (st', out) \<Longrightarrow> reachable st'"

text \<open>
  A sequence of \<open>submitAnswer\<close> events from one socket for one room code, with
  nothing else in between.
\<close>

fun submitAnswers :: "state \<Rightarrow> socket_id \<Rightarrow> room_code \<Rightarrow> jsval list \<Rightarrow> error + state" where
  "submitAnswers st sid roomCode [] = Inr st"
| "submitAnswers st sid roomCode (a # as) =
     (case submitAnswer st sid roomCode a of
        Inl e \<Rightarrow> Inl e
      | Inr (st', out) \<Rightarrow> submitAnswers st' sid roomCode as)"

text \<open>A sequence of events, stopped by the first handler that throws.\<close>

fun run :: "state \<Rightarrow> event list \<Rightarrow> error + state" where
  "run st [] = Inr st"
| "run st (ev # evs) =
     (case handle st ev of
        Inl e \<Rightarrow> Inl e
      | Inr (st', out) \<Rightarrow> run st' evs)"

text \<open>The event is a \<open>joinQuiz\<close> of the socket for the room stored under the code.\<close>

fun rejoins :: "socket_id \<Rightarrow> room_code \<Rightarrow> event \<Rightarrow> bool" where
  "rejoins sid code (JoinQuiz s c nm) = (s = sid \<and> toUpperCase c = code)"
| "rejoins sid code ev = False"

text \<open>
  If the room stored under the code has a leaderboard entry for the socket, that
  entry has a record for question index \<open>i\<close>.
\<close>

definition room_answered :: "room \<Rightarrow> socket_id \<Rightarrow> int \<Rightarrow> bool" where
  "room_answered r sid i =
     (case map_of (leaderboard r) sid of
        None \<Rightarrow> True
      | Some e \<Rightarrow> list_ex (\<lambda>x. question x = i) (answers e))"

definition answered :: "state \<Rightarrow> socket_id \<Rightarrow> room_code \<Rightarrow> int \<Rightarrow> bool" where
  "answered st sid code i =
     (case map_of (rooms st) code of
        None \<Rightarrow> True
      | Some r \<Rightarrow> room_answered r sid i)"

text \<open>
  The codes \<open>createQuiz\<close> generates: at most four characters, upper-cased.
\<close>

definition generated_code :: "room_code \<Rightarrow> bool" where
  "generated_code k = (length k \<le> 4 \<and> toUpperCase k = k)"

text \<open>
  The leaderboard after the update block of \<open>submitAnswer\<close>
  (\<^verbatim>\<open>if (room.leaderboard[socket.id]) { ... }\<close>), for the current question \<open>cq\<close>.
\<close>

definition recorded :: "room \<Rightarrow> socket_id \<Rightarrow> jsval \<Rightarrow> quiz_question \<Rightarrow> (socket_id \<times> entry) list" where
  "recorded r sid ans cq =
     (case map_of (leaderboard r) sid of
        None \<Rightarrow> leaderboard r
      | Some e \<Rightarrow>
          AList.update sid
            (if strict_eq ans (correctAnswer cq)
             then e\<lparr>answers := answers e @
                     [\<lparr>question = currentQuestion r, answer = ans, correct = True\<rparr>],
                    score := score e + 10\<rparr>
             else e\<lparr>answers := answers e @
                     [\<lparr>question = currentQuestion r, answer = ans, correct = False\<rparr>]\<rparr>)
            (leaderboard r))"

text \<open>
  No participant has two answer records for the same question index.
\<close>

definition entry_ok :: "socket_id \<times> entry \<Rightarrow> bool" where
  "entry_ok se = distinct (map question (answers (snd se)))"

definition answers_distinct :: "state \<Rightarrow> bool" where
  "answers_distinct st = list_all (\<lambda>kr. list_all entry_ok (leaderboard (snd kr))) (rooms st)"

definition room_inv :: "room_code \<times> room \<Rightarrow> bool" where
  "room_inv kr = (generated_code (fst kr) \<and> list_all entry_ok (leaderboard (snd kr)))"

definition state_inv :: "state \<Rightarrow> bool" where
  "state_inv st = list_all room_inv (rooms st)"

section \<open>Example data\<close>

text \<open>
  A quiz with two questions and the states of a room \<open>ABCD\<close> as it goes through
  the quiz: created, joined by one player, started, answered, advanced, finished.
\<close>

definition ex_question0 :: quiz_question where
  "ex_question0 = \<lparr>prompt = ''2 + 2'', choices = [''3'', ''4''],
                    correctAnswer = JStr ''4'', timeLimit = 10\<rparr>"

definition ex_question1 :: quiz_question where
  "ex_question1 = \<lparr>prompt = ''capital of France'', choices = [''Paris'', ''Rome''],
                    correctAnswer = JStr ''Paris'', timeLimit = 20\<rparr>"

definition ex_quiz :: quiz where
  "ex_quiz = \<lparr>quiz_title = ''Demo'', questions = [ex_question0, ex_question1]\<rparr>"

definition ex_room_created :: room where
  "ex_room_created =
     \<lparr>rid = 0, quizId = 1000, title = ''Demo'', players = [], currentQuestion = - 1,
      leaderboard = [], hostId = ''host'', timer = None\<rparr>"

definition ex_created :: state where
  "ex_created =
     \<lparr>quizzes = [(1000, ex_quiz)], rooms = [(''ABCD'', ex_room_created)], pending = [],
      next_handle = 0, next_rid = 1, detached = []\<rparr>"

definition ex_room_lobby :: room where
  "ex_room_lobby =
     ex_room_created
       \<lparr>players := [\<lparr>p_id = ''alice'', p_name = ''Alice'', p_score = 0\<rparr>],
        leaderboard := [(''alice'', \<lparr>name = ''Alice'', score = 0, answers = []\<rparr>)]\<rparr>"

definition ex_lobby :: state where
  "ex_lobby = ex_created\<lparr>rooms := [(''ABCD'', ex_room_lobby)]\<rparr>"

definition ex_room_q0 :: room where
  "ex_room_q0 = ex_room_lobby\<lparr>currentQuestion := 0, timer := Some 0\<rparr>"

definition ex_q0 :: state where
  "ex_q0 = ex_lobby\<lparr>rooms := [(''ABCD'', ex_room_q0)],
                    pending := [(0, 10000, QuestionTimer ''ABCD'' 0 ex_question0)],
                    next_handle := 1\<rparr>"

definition ex_room_answered :: room where
  "ex_room_answered =
     ex_room_q0\<lparr>leaderboard :=
       [(''alice'', \<lparr>name = ''Alice'', score = 10,
                     answers = [\<lparr>question = 0, answer = JStr ''4'', correct = True\<rparr>]\<rparr>)]\<rparr>"

definition ex_answered :: state where
  "ex_answered = ex_q0\<lparr>rooms := [(''ABCD'', ex_room_answered)]\<rparr>"

definition ex_room_q1 :: room where
  "ex_room_q1 = ex_room_answered\<lparr>currentQuestion := 1, timer := Some 1\<rparr>"

definition ex_q1 :: state where
  "ex_q1 = ex_answered\<lparr>rooms := [(''ABCD'', ex_room_q1)],
                       pending := [(1, 20000, QuestionTimer ''ABCD'' 0 ex_question1)],
                       next_handle := 2\<rparr>"

definition ex_finished :: state where
  "ex_finished = ex_q1\<lparr>rooms := [(''ABCD'', ex_room_q1\<lparr>currentQuestion := 2\<rparr>)]\<rparr>"

definition ex_finished_again :: state where
  "ex_finished_again =
     ex_q1\<lparr>rooms := [(''ABCD'', ex_room_q1\<lparr>currentQuestion := 3\<rparr>)]\<rparr>"


definition ex_restarted :: state where
  "ex_restarted =
     ex_q1\<lparr>rooms := [(''ABCD'', ex_room_q1\<lparr>currentQuestion := 0, timer := Some 2\<rparr>)],
           pending := [(2, 10000, QuestionTimer ''ABCD'' 0 ex_question0)],
           next_handle := 3\<rparr>"

text \<open>The same run for a room whose generated code has no letter.\<close>

definition ex_digits_created :: state where
  "ex_digits_created = ex_created\<lparr>rooms := [(''1234'', ex_room_created)]\<rparr>"

definition ex_digits_lobby :: state where
  "ex_digits_lobby = ex_lobby\<lparr>rooms := [(''1234'', ex_room_lobby)]\<rparr>"

definition ex_digits_q0 :: state where
  "ex_digits_q0 =
     ex_q0\<lparr>rooms := [(''1234'', ex_room_q0)],
           pending := [(0, 10000, QuestionTimer ''1234'' 0 ex_question0)]\<rparr>"

definition ex_digits_answered :: state where
  "ex_digits_answered = ex_digits_q0\<lparr>rooms := [(''1234'', ex_room_answered)]\<rparr>"


text \<open>Two rooms; Alice and Bob are in the first, Carol in the second.\<close>

definition ex_room_two :: room where
  "ex_room_two =
     ex_room_q0
       \<lparr>players := [\<lparr>p_id = ''alice'', p_name = ''Alice'', p_score = 0\<rparr>,
                    \<lparr>p_id = ''bob'', p_name = ''Bob'', p_score = 0\<rparr>],
        leaderboard :=
          [(''alice'', \<lparr>name = ''Alice'', score = 10,
                        answers = [\<lparr>question = 0, answer = JStr ''4'', correct = True\<rparr>]\<rparr>),
           (''bob'', \<lparr>name = ''Bob'', score = 0,
                      answers = [\<lparr>question = 0, answer = JStr ''3'', correct = False\<rparr>]\<rparr>)]\<rparr>"

definition ex_room_other :: room where
  "ex_room_other =
     \<lparr>rid = 1, quizId = 2000, title = ''Other'',
      players = [\<lparr>p_id = ''carol'', p_name = ''Carol'', p_score = 0\<rparr>],
      currentQuestion = - 1,
      leaderboard = [(''carol'', \<lparr>name = ''Carol'', score = 0, answers = []\<rparr>)],
      hostId = ''host2'', timer = None\<rparr>"

definition ex_two_rooms :: state where
  "ex_two_rooms =
     \<lparr>quizzes = [(1000, ex_quiz), (2000, ex_quiz)],
      rooms = [(''ABCD'', ex_room_two), (''WXYZ'', ex_room_other)],
      pending = [(0, 10000, QuestionTimer ''ABCD'' 0 ex_question0)],
      next_handle = 1, next_rid = 2, detached = []\<rparr>"

definition ex_room_two_left :: room where
  "ex_room_two_left =
     ex_room_two
       \<lparr>players := [\<lparr>p_id = ''alice'', p_name = ''Alice'', p_score = 0\<rparr>],
        leaderboard :=
          [(''alice'', \<lparr>name = ''Alice'', score = 10,
                        answers = [\<lparr>question = 0, answer = JStr ''4'', correct = True\<rparr>]\<rparr>)]\<rparr>"

definition ex_two_rooms_left :: state where
  "ex_two_rooms_left =
     ex_two_rooms\<lparr>rooms := [(''ABCD'', ex_room_two_left), (''WXYZ'', ex_room_other)]\<rparr>"

text \<open>
  After the quiz has finished with the timer of the last question still pending: the
  timer fires, and then the delayed \<open>nextQuestion\<close> runs.
\<close>

definition ex_stale_timeout :: state where
  "ex_stale_timeout =
     ex_finished\<lparr>pending := [(2, 2500, GraceDelay ''ABCD'')], next_handle := 3\<rparr>"

definition ex_stale_advance :: state where
  "ex_stale_advance =
     ex_finished_again\<lparr>pending := [], next_handle := 3\<rparr>"

text \<open>
  Alice joins the room a second time after her answer, answers question 0 again, and
  (from the state after the second join) disconnects.
\<close>

definition ex_room_rejoined :: room where
  "ex_room_rejoined =
     ex_room_answered
       \<lparr>players := [\<lparr>p_id = ''alice'', p_name = ''Alice'', p_score = 0\<rparr>,
                    \<lparr>p_id = ''alice'', p_name = ''Alice'', p_score = 0\<rparr>],
        leaderboard := [(''alice'', \<lparr>name = ''Alice'', score = 0, answers = []\<rparr>)]\<rparr>"

definition ex_rejoined :: state where
  "ex_rejoined = ex_answered\<lparr>rooms := [(''ABCD'', ex_room_rejoined)]\<rparr>"

definition ex_reanswered :: state where
  "ex_reanswered =
     ex_rejoined\<lparr>rooms := [(''ABCD'', ex_room_rejoined
       \<lparr>leaderboard :=
          [(''alice'', \<lparr>name = ''Alice'', score = 10,
              answers = [\<lparr>question = 0, answer = JStr ''4'', correct = True\<rparr>]\<rparr>)]\<rparr>)]\<rparr>"

definition ex_stale_roster :: state where
  "ex_stale_roster =
     ex_rejoined\<lparr>rooms := [(''ABCD'', ex_room_rejoined
       \<lparr>players := [\<lparr>p_id = ''alice'', p_name = ''Alice'', p_score = 0\<rparr>],
        leaderboard := []\<rparr>)]\<rparr>"

section \<open>Strings and keys\<close>

lemma toUpperCase_char_not_lower: "toUpperCase_char c \<notin> set lower_letters"
  unfolding toUpperCase_char_def lower_letters_def upper_letters_def
  by (simp split: option.split)

lemma toUpperCase_char_idem: "toUpperCase_char (toUpperCase_char c) = toUpperCase_char c"
  unfolding toUpperCase_char_def lower_letters_def upper_letters_def
  by simp

lemma toUpperCase_toLowerCase_char:
  "toUpperCase_char (toLowerCase_char c) = toUpperCase_char c"
  unfolding toUpperCase_char_def toLowerCase_char_def lower_letters_def upper_letters_def
  by simp

lemma toUpperCase_idem: "toUpperCase (toUpperCase s) = toUpperCase s"
  by (simp add: toUpperCase_def toUpperCase_char_idem)

lemma toUpperCase_toLowerCase: "toUpperCase (toLowerCase s) = toUpperCase s"
  by (simp add: toUpperCase_def toLowerCase_def toUpperCase_toLowerCase_char)

lemma prototype_keys_lower:
  "list_all (list_ex (\<lambda>c. c \<in> set lower_letters)) Object_prototype_keys"
  unfolding Object_prototype_keys_def lower_letters_def by simp

lemma prototype_key_has_lower:
  "k \<in> set Object_prototype_keys \<Longrightarrow> \<exists>c \<in> set k. c \<in> set lower_letters"
  using prototype_keys_lower by (simp add: list_all_iff list_ex_iff)

lemma toUpperCase_not_prototype_key: "toUpperCase s \<notin> set Object_prototype_keys"
proof
  assume "toUpperCase s \<in> set Object_prototype_keys"
  then obtain c where c: "c \<in> set (toUpperCase s)" "c \<in> set lower_letters"
    using prototype_key_has_lower by blast
  from c(1) obtain d where "c = toUpperCase_char d"
    unfolding toUpperCase_def by (metis imageE list.set_map)
  with c(2) show False
    by (simp add: toUpperCase_char_not_lower)
qed

lemma rooms_get_toUpperCase:
  "rooms_get st (toUpperCase c) =
     (case map_of (rooms st) (toUpperCase c) of Some r \<Rightarrow> Own r | None \<Rightarrow> Absent)"
  by (simp add: rooms_get_def toUpperCase_not_prototype_key)

section \<open>The example run\<close>

lemmas ex_defs = ex_question0_def ex_question1_def ex_quiz_def ex_room_created_def ex_created_def
  ex_room_lobby_def ex_lobby_def ex_room_q0_def ex_q0_def ex_room_answered_def ex_answered_def
  ex_room_q1_def ex_q1_def ex_finished_def ex_finished_again_def ex_restarted_def
  ex_digits_created_def ex_digits_lobby_def ex_digits_q0_def ex_digits_answered_def
  ex_room_two_def ex_room_other_def ex_two_rooms_def ex_room_two_left_def ex_two_rooms_left_def
  ex_stale_timeout_def ex_stale_advance_def
  ex_room_rejoined_def ex_rejoined_def ex_reanswered_def ex_stale_roster_def

lemmas case_defs = toUpperCase_def toUpperCase_char_def toLowerCase_def toLowerCase_char_def
  lower_letters_def upper_letters_def

lemma ex_step_create:
  "handle init (CreateQuiz ''host'' ex_quiz 1000 ''0.abcd1x'') =
     Inr (ex_created, [(ToSocket ''host'', QuizCreated ''ABCD'' 1000)])"
  by (simp add: createQuiz_def init_def ex_defs substring_2_6_def case_defs Let_def)

lemma ex_step_join:
  "handle ex_created (JoinQuiz ''alice'' ''abcd'' ''Alice'') =
     Inr (ex_lobby,
          [(ToSocket ''alice'', JoinedRoom ''ABCD'' ''Demo''
              [\<lparr>p_id = ''alice'', p_name = ''Alice'', p_score = 0\<rparr>]),
           (ToRoom ''ABCD'', PlayerJoined
              [\<lparr>p_id = ''alice'', p_name = ''Alice'', p_score = 0\<rparr>] ''Demo'')])"
  by (simp add: joinQuiz_def rooms_get_def rooms_set_def ex_defs case_defs Let_def)

lemma ex_step_start:
  "handle ex_lobby (StartQuiz ''ABCD'') =
     Inr (ex_q0, [(ToRoom ''ABCD'', NewQuestion (Some ex_question0))])"
  by (simp add: startQuiz_def startQuestionTimer_def rooms_get_def rooms_set_def setTimeout_def
        index_opt_def ex_defs Let_def)

lemma ex_step_submit:
  "handle ex_q0 (SubmitAnswer ''alice'' ''ABCD'' (JStr ''4'')) =
     Inr (ex_answered,
          [(ToSocket ''host'', UpdateLeaderboard
              [\<lparr>name = ''Alice'', score = 10,
                answers = [\<lparr>question = 0, answer = JStr ''4'', correct = True\<rparr>]\<rparr>]),
           (ToSocket ''alice'', ScoreUpdate 10)])"
  by (simp add: submitAnswer_def rooms_get_def rooms_set_def index_opt_def sortedLeaderboard_def
        js_sort_def Object_values_def ex_defs Let_def)

lemma ex_step_next:
  "handle ex_answered (NextQuestion ''ABCD'') =
     Inr (ex_q1, [(ToRoom ''ABCD'', NewQuestion (Some ex_question1))])"
  by (simp add: nextQuestion_def startQuestionTimer_def rooms_get_def rooms_set_def
        setTimeout_def clearTimeout_def index_opt_def ex_defs Let_def)

lemma ex_step_finish:
  "handle ex_q1 (NextQuestion ''ABCD'') =
     Inr (ex_finished, [(ToRoom ''ABCD'', QuizFinished
              [\<lparr>name = ''Alice'', score = 10,
                answers = [\<lparr>question = 0, answer = JStr ''4'', correct = True\<rparr>]\<rparr>])])"
  by (simp add: nextQuestion_def startQuestionTimer_def rooms_get_def rooms_set_def
        setTimeout_def clearTimeout_def index_opt_def sortedLeaderboard_def
        js_sort_def Object_values_def ex_defs Let_def)

section \<open>Joining a room\<close>

text \<open>
  C8. \<open>joinQuiz\<close> looks the room up under the upper-cased code, so a join with the
  lower-case form of a code behaves as a join with the code itself. If no room is
  stored under the upper-cased code, the joiner gets \<open>joinError\<close> and the state is
  unchanged. Otherwise the player is appended to the roster, the leaderboard gets an
  entry with score 0 and no answers, the joiner gets \<open>joinedRoom\<close> with the
  normalised code, the title and the roster, and the room gets \<open>playerJoined\<close> with
  the roster and the title.
\<close>

theorem joinQuiz_normalizes:
  "joinQuiz st sid (toLowerCase roomCode) nm = joinQuiz st sid roomCode nm
   \<and> (map_of (rooms st) (toUpperCase roomCode) = None \<longrightarrow>
        joinQuiz st sid roomCode nm =
          Inr (st, [(ToSocket sid, JoinError ''Room not found. Please check the code.'')]))
   \<and> (\<forall>r. map_of (rooms st) (toUpperCase roomCode) = Some r \<longrightarrow>
        joinQuiz st sid roomCode nm =
          Inr (st\<lparr>rooms := AList.update (toUpperCase roomCode)
                     (r\<lparr>players := players r @ [\<lparr>p_id = sid, p_name = nm, p_score = 0\<rparr>],
                        leaderboard := AList.update sid \<lparr>name = nm, score = 0, answers = []\<rparr>
                                         (leaderboard r)\<rparr>)
                     (rooms st)\<rparr>,
               [(ToSocket sid, JoinedRoom (toUpperCase roomCode) (title r)
                                 (players r @ [\<lparr>p_id = sid, p_name = nm, p_score = 0\<rparr>])),
                (ToRoom (toUpperCase roomCode),
                 PlayerJoined (players r @ [\<lparr>p_id = sid, p_name = nm, p_score = 0\<rparr>])
                   (title r))]))"
proof (intro conjI allI impI)
  show "joinQuiz st sid (toLowerCase roomCode) nm = joinQuiz st sid roomCode nm"
    by (simp add: joinQuiz_def toUpperCase_toLowerCase)
next
  assume "map_of (rooms st) (toUpperCase roomCode) = None"
  then show "joinQuiz st sid roomCode nm =
          Inr (st, [(ToSocket sid, JoinError ''Room not found. Please check the code.'')])"
    by (simp add: joinQuiz_def rooms_get_toUpperCase)
next
  fix r assume "map_of (rooms st) (toUpperCase roomCode) = Some r"
  then show "joinQuiz st sid roomCode nm =
          Inr (st\<lparr>rooms := AList.update (toUpperCase roomCode)
                     (r\<lparr>players := players r @ [\<lparr>p_id = sid, p_name = nm, p_score = 0\<rparr>],
                        leaderboard := AList.update sid \<lparr>name = nm, score = 0, answers = []\<rparr>
                                         (leaderboard r)\<rparr>)
                     (rooms st)\<rparr>,
               [(ToSocket sid, JoinedRoom (toUpperCase roomCode) (title r)
                                 (players r @ [\<lparr>p_id = sid, p_name = nm, p_score = 0\<rparr>])),
                (ToRoom (toUpperCase roomCode),
                 PlayerJoined (players r @ [\<lparr>p_id = sid, p_name = nm, p_score = 0\<rparr>])
                   (title r))])"
    by (simp add: joinQuiz_def rooms_get_toUpperCase rooms_set_def Let_def)
qed

theorem joinQuiz_normalizes_witness:
  "toUpperCase ''ABCD'' = ''ABCD'' \<and> toLowerCase ''ABCD'' = ''abcd''
   \<and> map_of (rooms ex_created) ''ABCD'' = Some ex_room_created
   \<and> joinQuiz ex_created ''alice'' ''abcd'' ''Alice'' =
       Inr (ex_lobby,
            [(ToSocket ''alice'', JoinedRoom ''ABCD'' ''Demo''
                [\<lparr>p_id = ''alice'', p_name = ''Alice'', p_score = 0\<rparr>]),
             (ToRoom ''ABCD'', PlayerJoined
                [\<lparr>p_id = ''alice'', p_name = ''Alice'', p_score = 0\<rparr>] ''Demo'')])
   \<and> map_of (rooms ex_created) (toUpperCase ''wxyz'') = None
   \<and> joinQuiz ex_created ''alice'' ''wxyz'' ''Alice'' =
       Inr (ex_created,
            [(ToSocket ''alice'', JoinError ''Room not found. Please check the code.'')])"
proof -
  have up: "toUpperCase ''abcd'' = ''ABCD''" "toUpperCase ''ABCD'' = ''ABCD''"
    "toLowerCase ''ABCD'' = ''abcd''" "toUpperCase ''wxyz'' = ''WXYZ''"
    by (simp_all add: case_defs)
  have found: "map_of (rooms ex_created) (toUpperCase ''abcd'') = Some ex_room_created"
    by (simp add: up ex_created_def)
  have missing: "map_of (rooms ex_created) (toUpperCase ''wxyz'') = None"
    by (simp add: up ex_created_def)
  from joinQuiz_normalizes [of ex_created "''alice''" "''abcd''" "''Alice''"] found
  have "joinQuiz ex_created ''alice'' ''abcd'' ''Alice'' =
          Inr (ex_created\<lparr>rooms := AList.update (toUpperCase ''abcd'')
                     (ex_room_created\<lparr>players := players ex_room_created @ [\<lparr>p_id = ''alice'', p_name = ''Alice'', p_score = 0\<rparr>],
                        leaderboard := AList.update ''alice'' \<lparr>name = ''Alice'', score = 0, answers = []\<rparr>
                                         (leaderboard ex_room_created)\<rparr>)
                     (rooms ex_created)\<rparr>,
               [(ToSocket ''alice'', JoinedRoom (toUpperCase ''abcd'') (title ex_room_created)
                                 (players ex_room_created @ [\<lparr>p_id = ''alice'', p_name = ''Alice'', p_score = 0\<rparr>])),
                (ToRoom (toUpperCase ''abcd''),
                 PlayerJoined (players ex_room_created @ [\<lparr>p_id = ''alice'', p_name = ''Alice'', p_score = 0\<rparr>])
                   (title ex_room_created))])"
    by blast
  then have ok: "joinQuiz ex_created ''alice'' ''abcd'' ''Alice'' =
       Inr (ex_lobby,
            [(ToSocket ''alice'', JoinedRoom ''ABCD'' ''Demo''
                [\<lparr>p_id = ''alice'', p_name = ''Alice'', p_score = 0\<rparr>]),
             (ToRoom ''ABCD'', PlayerJoined
                [\<lparr>p_id = ''alice'', p_name = ''Alice'', p_score = 0\<rparr>] ''Demo'')])"
    by (simp add: up ex_defs)
  from joinQuiz_normalizes [of ex_created "''alice''" "''wxyz''" "''Alice''"] missing
  have err: "joinQuiz ex_created ''alice'' ''wxyz'' ''Alice'' =
       Inr (ex_created,
            [(ToSocket ''alice'', JoinError ''Room not found. Please check the code.'')])"
    by blast
  show ?thesis using up found missing ok err by (simp add: ex_created_def)
qed

section \<open>Submitting an answer\<close>

text \<open>
  C5. When the room and its quiz exist, the current index is the index of a question,
  and the participant has a leaderboard entry with no record for the current index,
  \<open>submitAnswer\<close> appends one record whose \<open>correct\<close> flag is the strict equality of
  the answer with the question's \<open>correctAnswer\<close>; the participant's score grows by
  10 exactly when the answer is correct; no other leaderboard entry of the room and no
  other room changes.
\<close>

theorem submitAnswer_first:
  assumes "map_of (rooms st) roomCode = Some r"
      and "map_of (quizzes st) (quizId r) = Some qz"
      and "index_opt (questions qz) (currentQuestion r) = Some cq"
      and "map_of (leaderboard r) sid = Some e"
      and "\<not> list_ex (\<lambda>a. question a = currentQuestion r) (answers e)"
  shows "\<exists>st' out r' e'.
           submitAnswer st sid roomCode ans = Inr (st', out)
         \<and> map_of (rooms st') roomCode = Some r'
         \<and> map_of (leaderboard r') sid = Some e'
         \<and> answers e' = answers e @ [\<lparr>question = currentQuestion r, answer = ans,
                                      correct = strict_eq ans (correctAnswer cq)\<rparr>]
         \<and> score e' = (if strict_eq ans (correctAnswer cq) then score e + 10 else score e)
         \<and> (\<forall>sid'. sid' \<noteq> sid \<longrightarrow> map_of (leaderboard r') sid' = map_of (leaderboard r) sid')
         \<and> (\<forall>code'. code' \<noteq> roomCode \<longrightarrow> map_of (rooms st') code' = map_of (rooms st) code')"
  using assms
  by (simp add: submitAnswer_def rooms_get_def rooms_set_def Let_def update_conv')

theorem submitAnswer_first_witness:
  "map_of (rooms ex_q0) ''ABCD'' = Some ex_room_q0
   \<and> map_of (quizzes ex_q0) (quizId ex_room_q0) = Some ex_quiz
   \<and> index_opt (questions ex_quiz) (currentQuestion ex_room_q0) = Some ex_question0
   \<and> map_of (leaderboard ex_room_q0) ''alice'' =
         Some \<lparr>name = ''Alice'', score = 0, answers = []\<rparr>
   \<and> (\<exists>st' out r' e'.
           submitAnswer ex_q0 ''alice'' ''ABCD'' (JStr ''4'') = Inr (st', out)
         \<and> map_of (rooms st') ''ABCD'' = Some r'
         \<and> map_of (leaderboard r') ''alice'' = Some e'
         \<and> answers e' = [\<lparr>question = 0, answer = JStr ''4'', correct = True\<rparr>]
         \<and> score e' = 10)"
proof -
  have h1: "map_of (rooms ex_q0) ''ABCD'' = Some ex_room_q0"
    by (simp add: ex_defs)
  have h2: "map_of (quizzes ex_q0) (quizId ex_room_q0) = Some ex_quiz"
    by (simp add: ex_defs)
  have h3: "index_opt (questions ex_quiz) (currentQuestion ex_room_q0) = Some ex_question0"
    by (simp add: ex_defs index_opt_def)
  have h4: "map_of (leaderboard ex_room_q0) ''alice'' =
              Some \<lparr>name = ''Alice'', score = 0, answers = []\<rparr>"
    by (simp add: ex_defs)
  have h5: "\<not> list_ex (\<lambda>a. question a = currentQuestion ex_room_q0)
                (answers \<lparr>name = ''Alice'', score = 0, answers = []\<rparr>)"
    by simp
  have eq: "strict_eq (JStr ''4'') (correctAnswer ex_question0)"
    "currentQuestion ex_room_q0 = 0"
    by (simp_all add: ex_defs)
  from submitAnswer_first [OF h1 h2 h3 h4 h5, of "JStr ''4''"]
  obtain st' out r' e' where
    "submitAnswer ex_q0 ''alice'' ''ABCD'' (JStr ''4'') = Inr (st', out)"
    "map_of (rooms st') ''ABCD'' = Some r'"
    "map_of (leaderboard r') ''alice'' = Some e'"
    "answers e' = [\<lparr>question = 0, answer = JStr ''4'', correct = True\<rparr>]"
    "score e' = 10"
    using eq by auto
  then show ?thesis using h1 h2 h3 h4 by blast
qed

section \<open>Advancing and starting\<close>

text \<open>
  \<open>nextQuestion\<close> increments the index before it looks at the quiz, and has no check
  for a finished quiz. In the example the index is 2, the number of questions; one
  more \<open>nextQuestion\<close> makes it 3.
\<close>

theorem nextQuestion_finished_counterexample:
  "map_option currentQuestion (map_of (rooms ex_finished) ''ABCD'') = Some 2
   \<and> map_option (length \<circ> questions) (map_of (quizzes ex_finished) 1000) = Some 2
   \<and> nextQuestion ex_finished ''ABCD'' =
        Inr (ex_finished_again,
             [(ToRoom ''ABCD'', QuizFinished
                [\<lparr>name = ''Alice'', score = 10,
                  answers = [\<lparr>question = 0, answer = JStr ''4'', correct = True\<rparr>]\<rparr>])])
   \<and> map_option currentQuestion (map_of (rooms ex_finished_again) ''ABCD'') = Some 3"
  by (simp add: nextQuestion_def rooms_get_def rooms_set_def sortedLeaderboard_def
        js_sort_def Object_values_def ex_defs Let_def)

text \<open>
  C2, as the code has it. Once the index of a room has reached the number of questions
  of its quiz, every further \<open>nextQuestion\<close> adds one to the index (it stays beyond the
  last question), broadcasts \<open>quizFinished\<close> with the sorted leaderboard to the room
  again and nothing else (no \<open>newQuestion\<close>), and leaves the quizzes, the timers
  and the other rooms as they are.
\<close>

theorem nextQuestion_finished:
  assumes "map_of (rooms st) roomCode = Some r"
      and "map_of (quizzes st) (quizId r) = Some qz"
      and "int (length (questions qz)) \<le> currentQuestion r"
  shows "nextQuestion st roomCode =
           Inr (st\<lparr>rooms := AList.update roomCode
                               (r\<lparr>currentQuestion := currentQuestion r + 1\<rparr>) (rooms st)\<rparr>,
                [(ToRoom roomCode, QuizFinished (sortedLeaderboard (leaderboard r)))])"
  using assms
  by (simp add: nextQuestion_def rooms_get_def rooms_set_def Let_def)

theorem nextQuestion_finished_witness:
  "map_of (rooms ex_finished) ''ABCD'' = Some (ex_room_q1\<lparr>currentQuestion := 2\<rparr>)
   \<and> map_of (quizzes ex_finished) (quizId (ex_room_q1\<lparr>currentQuestion := 2\<rparr>)) = Some ex_quiz
   \<and> int (length (questions ex_quiz)) \<le> currentQuestion (ex_room_q1\<lparr>currentQuestion := 2\<rparr>)
   \<and> nextQuestion ex_finished ''ABCD'' =
        Inr (ex_finished_again,
             [(ToRoom ''ABCD'', QuizFinished
                [\<lparr>name = ''Alice'', score = 10,
                  answers = [\<lparr>question = 0, answer = JStr ''4'', correct = True\<rparr>]\<rparr>])])"
proof -
  have h1: "map_of (rooms ex_finished) ''ABCD'' = Some (ex_room_q1\<lparr>currentQuestion := 2\<rparr>)"
    by (simp add: ex_defs)
  have h2: "map_of (quizzes ex_finished) (quizId (ex_room_q1\<lparr>currentQuestion := 2\<rparr>)) =
              Some ex_quiz"
    by (simp add: ex_defs)
  have h3: "int (length (questions ex_quiz)) \<le>
              currentQuestion (ex_room_q1\<lparr>currentQuestion := 2\<rparr>)"
    by (simp add: ex_defs)
  have "nextQuestion ex_finished ''ABCD'' =
        Inr (ex_finished_again,
             [(ToRoom ''ABCD'', QuizFinished
                [\<lparr>name = ''Alice'', score = 10,
                  answers = [\<lparr>question = 0, answer = JStr ''4'', correct = True\<rparr>]\<rparr>])])"
    unfolding nextQuestion_finished [OF h1 h2 h3]
    by (simp add: sortedLeaderboard_def js_sort_def Object_values_def ex_defs)
  with h1 h2 h3 show ?thesis by blast
qed

text \<open>
  \<open>startQuiz\<close> has no check of the state either. In the example the room is at
  question 1; \<open>startQuiz\<close> puts it back to question 0, broadcasts the first question
  and replaces the timer.
\<close>

theorem startQuiz_restart_counterexample:
  "map_option currentQuestion (map_of (rooms ex_q1) ''ABCD'') = Some 1
   \<and> startQuiz ex_q1 ''ABCD'' =
        Inr (ex_restarted, [(ToRoom ''ABCD'', NewQuestion (Some ex_question0))])
   \<and> map_option currentQuestion (map_of (rooms ex_restarted) ''ABCD'') = Some 0
   \<and> ex_restarted \<noteq> ex_q1"
  by (simp add: startQuiz_def startQuestionTimer_def rooms_get_def rooms_set_def setTimeout_def
        clearTimeout_def index_opt_def ex_defs Let_def)

text \<open>
  C7, as the code has it. For a room whose quiz has at least one question, \<open>startQuiz\<close>
  from any state (lobby, in a question, or finished) sets the index to 0, broadcasts
  the first question to the room, cancels the room's timer if it has one and arms a
  new one for the first question.
\<close>

theorem startQuiz_any_state:
  assumes "map_of (rooms st) roomCode = Some r"
      and "map_of (quizzes st) (quizId r) = Some qz"
      and "questions qz = q # qs"
  shows "startQuiz st roomCode =
           Inr (st\<lparr>rooms := AList.update roomCode
                               (r\<lparr>currentQuestion := 0, timer := Some (next_handle st)\<rparr>)
                               (rooms st),
                    pending := (case timer r of
                                  Some h \<Rightarrow> AList.delete h (pending st)
                                | None \<Rightarrow> pending st)
                               @ [(next_handle st, timeLimit q * 1000,
                                   QuestionTimer roomCode (rid r) q)],
                    next_handle := Suc (next_handle st)\<rparr>,
                [(ToRoom roomCode, NewQuestion (Some q))])"
  using assms
  by (cases "timer r")
     (simp_all add: startQuiz_def startQuestionTimer_def rooms_get_def rooms_set_def
        setTimeout_def clearTimeout_def index_opt_def Let_def update_conv')

theorem startQuiz_any_state_witness:
  "map_of (rooms ex_lobby) ''ABCD'' = Some ex_room_lobby
   \<and> map_of (quizzes ex_lobby) (quizId ex_room_lobby) = Some ex_quiz
   \<and> questions ex_quiz = ex_question0 # [ex_question1]
   \<and> startQuiz ex_lobby ''ABCD'' =
        Inr (ex_q0, [(ToRoom ''ABCD'', NewQuestion (Some ex_question0))])"
proof -
  have h1: "map_of (rooms ex_lobby) ''ABCD'' = Some ex_room_lobby"
    by (simp add: ex_defs)
  have h2: "map_of (quizzes ex_lobby) (quizId ex_room_lobby) = Some ex_quiz"
    by (simp add: ex_defs)
  have h3: "questions ex_quiz = ex_question0 # [ex_question1]"
    by (simp add: ex_defs)
  have "startQuiz ex_lobby ''ABCD'' =
        Inr (ex_q0, [(ToRoom ''ABCD'', NewQuestion (Some ex_question0))])"
    unfolding startQuiz_any_state [OF h1 h2 h3]
    by (simp add: ex_defs)
  with h1 h2 h3 show ?thesis by blast
qed

section \<open>Facts about the room table\<close>

lemma rooms_get_OwnD: "rooms_get st code = Own r \<Longrightarrow> map_of (rooms st) code = Some r"
  by (auto simp: rooms_get_def split: option.splits if_splits)

lemma map_of_key: "map_of al k = Some v \<Longrightarrow> k \<in> fst ` set al"
  by (metis domI dom_map_of_conv_image_fst)

lemma rooms_clearTimeout [simp]: "rooms (clearTimeout h st) = rooms st"
  by (simp add: clearTimeout_def)

lemma quizzes_clearTimeout [simp]: "quizzes (clearTimeout h st) = quizzes st"
  by (simp add: clearTimeout_def)

lemma rooms_setTimeout [simp]: "rooms (snd (setTimeout cb ms st)) = rooms st"
  by (simp add: setTimeout_def)

lemma quizzes_setTimeout [simp]: "quizzes (snd (setTimeout cb ms st)) = quizzes st"
  by (simp add: setTimeout_def)

lemma quizzes_rooms_set [simp]: "quizzes (rooms_set code r st) = quizzes st"
  by (simp add: rooms_set_def)

lemma rooms_rooms_set [simp]: "rooms (rooms_set code r st) = AList.update code r (rooms st)"
  by (simp add: rooms_set_def)

text \<open>What \<open>startQuestionTimer\<close> does to the room table.\<close>

lemma startQuestionTimer_rooms:
  assumes "startQuestionTimer st code = Inr st'"
  shows "rooms st' = rooms st \<or>
         (\<exists>r h. map_of (rooms st) code = Some r \<and>
                 rooms st' = AList.update code (r\<lparr>timer := Some h\<rparr>) (rooms st))"
  using assms unfolding startQuestionTimer_def Let_def
  by (auto split: room_lookup.splits option.splits prod.splits dest!: rooms_get_OwnD
           simp: setTimeout_def clearTimeout_def)

section \<open>An invariant of the room table\<close>

text \<open>
  Every handler keeps two facts about the rooms: each is stored under a generated
  code, and no leaderboard entry has two records for one question index.
\<close>

lemma list_all_update:
  "list_all P al \<Longrightarrow> P (k, v) \<Longrightarrow> list_all P (AList.update k v al)"
  by (induction al) auto

lemma list_all_delete: "list_all P al \<Longrightarrow> list_all P (AList.delete k al)"
  by (induction al) auto

lemma list_all_map_of:
  "list_all P al \<Longrightarrow> map_of al k = Some v \<Longrightarrow> P (k, v)"
  by (auto simp: list_all_iff dest: map_of_SomeD)

lemma room_inv_simp [simp]:
  "room_inv (k, r) = (generated_code k \<and> list_all entry_ok (leaderboard r))"
  by (simp add: room_inv_def)

lemma state_inv_room:
  "state_inv st \<Longrightarrow> map_of (rooms st) code = Some r \<Longrightarrow>
     generated_code code \<and> list_all entry_ok (leaderboard r)"
  using list_all_map_of [of room_inv "rooms st" code r] by (simp add: state_inv_def)

lemma state_inv_rooms_set:
  "state_inv st \<Longrightarrow> generated_code code \<Longrightarrow> list_all entry_ok (leaderboard r) \<Longrightarrow>
     state_inv (rooms_set code r st)"
  by (simp add: state_inv_def list_all_update)

lemma state_inv_init: "state_inv init"
  by (simp add: state_inv_def init_def)

lemma generated_code_createQuiz: "generated_code (toUpperCase (substring_2_6 rnd))"
  by (simp add: generated_code_def toUpperCase_idem)
     (simp add: toUpperCase_def substring_2_6_def)

lemma state_inv_createQuiz:
  "state_inv st \<Longrightarrow> createQuiz st sid quizData now rnd = Inr (st', out) \<Longrightarrow> state_inv st'"
  by (auto simp: createQuiz_def Let_def state_inv_def list_all_update generated_code_createQuiz)

lemma state_inv_startQuestionTimer:
  assumes "state_inv st" "startQuestionTimer st code = Inr st'"
  shows "state_inv st'"
proof -
  from startQuestionTimer_rooms [OF assms(2)]
  consider "rooms st' = rooms st"
    | r h where "map_of (rooms st) code = Some r"
        "rooms st' = AList.update code (r\<lparr>timer := Some h\<rparr>) (rooms st)"
    by blast
  then show ?thesis
  proof cases
    case 1
    with assms(1) show ?thesis by (simp add: state_inv_def)
  next
    case 2
    with assms(1) state_inv_room [OF assms(1) 2(1)] show ?thesis
      by (simp add: state_inv_def list_all_update)
  qed
qed

lemma state_inv_nextQuestion:
  assumes "state_inv st" "nextQuestion st code = Inr (st', out)"
  shows "state_inv st'"
proof (cases "rooms_get st code")
  case (Own r)
  then have r: "map_of (rooms st) code = Some r" by (rule rooms_get_OwnD)
  have inv1: "state_inv (rooms_set code (r\<lparr>currentQuestion := currentQuestion r + 1\<rparr>) st)"
    using state_inv_room [OF assms(1) r] assms(1) by (simp add: state_inv_rooms_set)
  from assms(2) Own show ?thesis
    using inv1 state_inv_startQuestionTimer [OF inv1]
    by (auto simp: nextQuestion_def Let_def split: option.splits if_splits sum.splits)
next
  case Inherited
  with assms(2) show ?thesis by (simp add: nextQuestion_def)
next
  case Absent
  with assms show ?thesis by (simp add: nextQuestion_def)
qed

lemma state_inv_startQuiz:
  assumes "state_inv st" "startQuiz st code = Inr (st', out)"
  shows "state_inv st'"
proof (cases "rooms_get st code")
  case (Own r)
  then have r: "map_of (rooms st) code = Some r" by (rule rooms_get_OwnD)
  have inv1: "state_inv (rooms_set code (r\<lparr>currentQuestion := 0\<rparr>) st)"
    using state_inv_room [OF assms(1) r] assms(1) by (simp add: state_inv_rooms_set)
  from assms(2) Own show ?thesis
    using state_inv_startQuestionTimer [OF inv1]
    by (auto simp: startQuiz_def Let_def split: option.splits sum.splits)
next
  case Inherited
  with assms(2) show ?thesis by (simp add: startQuiz_def)
next
  case Absent
  with assms show ?thesis by (simp add: startQuiz_def)
qed

lemma state_inv_joinQuiz:
  assumes "state_inv st" "joinQuiz st sid code nm = Inr (st', out)"
  shows "state_inv st'"
proof (cases "map_of (rooms st) (toUpperCase code)")
  case None
  with assms show ?thesis by (simp add: joinQuiz_def rooms_get_toUpperCase)
next
  case (Some r)
  from state_inv_room [OF assms(1) Some] assms Some show ?thesis
    by (auto simp: joinQuiz_def rooms_get_toUpperCase Let_def list_all_update entry_ok_def
             intro!: state_inv_rooms_set)
qed

lemma state_inv_submitAnswer:
  assumes "state_inv st" "submitAnswer st sid code ans = Inr (st', out)"
  shows "state_inv st'"
proof (cases "rooms_get st code")
  case (Own r)
  then have r: "map_of (rooms st) code = Some r" by (rule rooms_get_OwnD)
  note ok = state_inv_room [OF assms(1) r]
  show ?thesis
  proof (cases "map_of (leaderboard r) sid")
    case None
    with assms Own ok show ?thesis
      by (auto simp: submitAnswer_def Let_def split: option.splits if_splits
               intro!: state_inv_rooms_set)
  next
    case (Some e)
    with ok have e: "distinct (map question (answers e))"
      using list_all_map_of [of entry_ok "leaderboard r" sid e] by (simp add: entry_ok_def)
    from assms Own ok Some e show ?thesis
      by (auto simp: submitAnswer_def Let_def update_conv' list_ex_iff
               split: option.splits if_splits
               intro!: state_inv_rooms_set list_all_update)
         (auto simp: entry_ok_def)
  qed
next
  case Inherited
  with assms(2) show ?thesis by (simp add: submitAnswer_def)
next
  case Absent
  with assms show ?thesis by (simp add: submitAnswer_def)
qed

lemma state_inv_disconnect_loop:
  "state_inv st \<Longrightarrow> disconnect_loop sid ks st = (st', out) \<Longrightarrow> state_inv st'"
proof (induction ks)
  case Nil
  then show ?case by simp
next
  case (Cons k ks)
  show ?case
  proof (cases "map_of (rooms st) k")
    case None
    with Cons show ?thesis by simp
  next
    case (Some r)
    note ok = state_inv_room [OF Cons.prems(1) Some]
    show ?thesis
    proof (cases "hostId r = sid")
      case True
      with Cons.prems Some show ?thesis
        by (auto simp: Let_def state_inv_def list_all_delete split: option.splits)
    next
      case False
      show ?thesis
      proof (cases "findIndex (\<lambda>p. p_id p = sid) (players r)")
        case None
        with Cons Some False show ?thesis by simp
      next
        case (Some i)
        with Cons.prems \<open>map_of (rooms st) k = Some r\<close> False ok show ?thesis
          by (auto simp: Let_def list_all_delete intro!: state_inv_rooms_set)
      qed
    qed
  qed
qed

lemma state_inv_disconnect:
  "state_inv st \<Longrightarrow> disconnect st sid = Inr (st', out) \<Longrightarrow> state_inv st'"
  by (auto simp: disconnect_def dest: state_inv_disconnect_loop)

lemma state_inv_clearTimeout: "state_inv st \<Longrightarrow> state_inv (clearTimeout h st)"
  by (simp add: state_inv_def)

lemma state_inv_setTimeout: "state_inv st \<Longrightarrow> state_inv (snd (setTimeout cb ms st))"
  by (simp add: state_inv_def)

lemma state_inv_fire:
  assumes "state_inv st" "fire st h = Inr (st', out)"
  shows "state_inv st'"
proof (cases "map_of (pending st) h")
  case None
  with assms show ?thesis by (simp add: fire_def)
next
  case (Some mc)
  obtain ms cb where mc: "mc = (ms, cb)" by (cases mc)
  show ?thesis
  proof (cases cb)
    case (QuestionTimer code i q)
    with assms Some mc show ?thesis
      by (auto simp: fire_def Let_def intro!: state_inv_setTimeout state_inv_clearTimeout)
  next
    case (GraceDelay code)
    with assms Some mc show ?thesis
      by (auto simp: fire_def Let_def
               dest: state_inv_nextQuestion [OF state_inv_clearTimeout])
  qed
qed

lemma state_inv_handle:
  "state_inv st \<Longrightarrow> handle st ev = Inr (st', out) \<Longrightarrow> state_inv st'"
  by (cases ev)
     (auto dest: state_inv_createQuiz state_inv_startQuiz state_inv_nextQuestion
                 state_inv_joinQuiz state_inv_submitAnswer state_inv_disconnect
                 state_inv_fire)

lemma reachable_state_inv: "reachable st \<Longrightarrow> state_inv st"
  by (induction rule: reachable.induct) (auto intro: state_inv_init state_inv_handle)

lemma state_inv_answers_distinct: "state_inv st \<Longrightarrow> answers_distinct st"
  by (auto simp: state_inv_def answers_distinct_def list_all_iff room_inv_def)

section \<open>Room codes in submitAnswer\<close>

text \<open>The example states are states of runs of the server.\<close>

lemma ex_reachable_created: "reachable ex_created"
  using reachable_step [OF reachable_init ex_step_create] .

lemma ex_reachable_lobby: "reachable ex_lobby"
  using reachable_step [OF ex_reachable_created ex_step_join] .

lemma ex_reachable_q0: "reachable ex_q0"
  using reachable_step [OF ex_reachable_lobby ex_step_start] .

lemma ex_reachable_answered: "reachable ex_answered"
  using reachable_step [OF ex_reachable_q0 ex_step_submit] .

lemma ex_reachable_q1: "reachable ex_q1"
  using reachable_step [OF ex_reachable_answered ex_step_next] .

lemma ex_reachable_finished: "reachable ex_finished"
  using reachable_step [OF ex_reachable_q1 ex_step_finish] .

lemma ex_reachable_digits_q0: "reachable ex_digits_q0"
proof -
  have "handle init (CreateQuiz ''host'' ex_quiz 1000 ''0.1234xyz'') =
          Inr (ex_digits_created, [(ToSocket ''host'', QuizCreated ''1234'' 1000)])"
    by (simp add: createQuiz_def init_def ex_defs substring_2_6_def case_defs Let_def)
  from reachable_step [OF reachable_init this]
  have 1: "reachable ex_digits_created" .
  have "handle ex_digits_created (JoinQuiz ''alice'' ''1234'' ''Alice'') =
     Inr (ex_digits_lobby,
          [(ToSocket ''alice'', JoinedRoom ''1234'' ''Demo''
              [\<lparr>p_id = ''alice'', p_name = ''Alice'', p_score = 0\<rparr>]),
           (ToRoom ''1234'', PlayerJoined
              [\<lparr>p_id = ''alice'', p_name = ''Alice'', p_score = 0\<rparr>] ''Demo'')])"
    by (simp add: joinQuiz_def rooms_get_def rooms_set_def ex_defs case_defs Let_def)
  from reachable_step [OF 1 this]
  have 2: "reachable ex_digits_lobby" .
  have "handle ex_digits_lobby (StartQuiz ''1234'') =
     Inr (ex_digits_q0, [(ToRoom ''1234'', NewQuestion (Some ex_question0))])"
    by (simp add: startQuiz_def startQuestionTimer_def rooms_get_def rooms_set_def
          setTimeout_def index_opt_def ex_defs Let_def)
  from reachable_step [OF 2 this]
  show ?thesis .
qed

lemma prototype_keys_long: "k \<in> set Object_prototype_keys \<Longrightarrow> 4 < length k"
proof -
  have "list_all (\<lambda>k. 4 < length k) Object_prototype_keys"
    unfolding Object_prototype_keys_def by simp
  then show "k \<in> set Object_prototype_keys \<Longrightarrow> 4 < length k"
    by (simp add: list_all_iff)
qed

lemma lowercase_code_absent:
  assumes inv: "state_inv st" and r: "map_of (rooms st) code = Some r"
      and low: "toLowerCase code \<noteq> code"
  shows "rooms_get st (toLowerCase code) = Absent"
proof -
  from state_inv_room [OF inv r] have gen: "length code \<le> 4" "toUpperCase code = code"
    by (simp_all add: generated_code_def)
  have "map_of (rooms st) (toLowerCase code) = None"
  proof (rule ccontr)
    assume "map_of (rooms st) (toLowerCase code) \<noteq> None"
    then obtain r' where "map_of (rooms st) (toLowerCase code) = Some r'" by blast
    from state_inv_room [OF inv this]
    have "toUpperCase (toLowerCase code) = toLowerCase code"
      by (simp add: generated_code_def)
    with gen(2) low show False by (simp add: toUpperCase_toLowerCase)
  qed
  moreover have "toLowerCase code \<notin> set Object_prototype_keys"
    using prototype_keys_long [of "toLowerCase code"] gen(1)
    by (auto simp: toLowerCase_def)
  ultimately show ?thesis by (simp add: rooms_get_def)
qed

text \<open>
  C10, as the code has it. \<open>submitAnswer\<close> looks the room up under the code as sent.
  In every state the server can reach, for a room stored under a code that has a
  letter (its lower-case form is another string), a \<open>submitAnswer\<close> with the
  lower-case form finds no room: it returns with the state unchanged and nothing
  emitted. That also holds right after the same participant joined this room with the
  lower-case form.
\<close>

theorem submitAnswer_lowercase:
  assumes "reachable st" and "map_of (rooms st) code = Some r"
      and "toLowerCase code \<noteq> code"
  shows "submitAnswer st sid (toLowerCase code) ans = Inr (st, [])
       \<and> (\<forall>nm st1 out.
             joinQuiz st sid (toLowerCase code) nm = Inr (st1, out) \<longrightarrow>
               (\<exists>r1 e1. map_of (rooms st1) code = Some r1
                        \<and> map_of (leaderboard r1) sid = Some e1)
               \<and> submitAnswer st1 sid (toLowerCase code) ans = Inr (st1, []))"
proof (intro conjI allI impI)
  from assms(1) have inv: "state_inv st" by (rule reachable_state_inv)
  show "submitAnswer st sid (toLowerCase code) ans = Inr (st, [])"
    using lowercase_code_absent [OF inv assms(2,3)] by (simp add: submitAnswer_def)
next
  fix nm st1 out
  assume j: "joinQuiz st sid (toLowerCase code) nm = Inr (st1, out)"
  from assms(1) have inv: "state_inv st" by (rule reachable_state_inv)
  from state_inv_room [OF inv assms(2)] have up: "toUpperCase code = code"
    by (simp add: generated_code_def)
  from j have "handle st (JoinQuiz sid (toLowerCase code) nm) = Inr (st1, out)" by simp
  from reachable_step [OF assms(1) this] have inv1: "state_inv st1"
    by (rule reachable_state_inv)
  from j assms(2) up obtain r1 e1 where
    r1: "map_of (rooms st1) code = Some r1" "map_of (leaderboard r1) sid = Some e1"
    by (auto simp: joinQuiz_def rooms_get_def toUpperCase_toLowerCase Let_def
          update_conv')
  then show "\<exists>r1 e1. map_of (rooms st1) code = Some r1
                        \<and> map_of (leaderboard r1) sid = Some e1" by blast
  show "submitAnswer st1 sid (toLowerCase code) ans = Inr (st1, [])"
    using lowercase_code_absent [OF inv1 r1(1) assms(3)] by (simp add: submitAnswer_def)
qed

theorem submitAnswer_lowercase_witness:
  "reachable ex_created \<and> map_of (rooms ex_created) ''ABCD'' = Some ex_room_created
   \<and> toLowerCase ''ABCD'' = ''abcd''
   \<and> submitAnswer ex_created ''alice'' ''abcd'' (JStr ''4'') = Inr (ex_created, [])
   \<and> joinQuiz ex_created ''alice'' ''abcd'' ''Alice'' =
        Inr (ex_lobby,
          [(ToSocket ''alice'', JoinedRoom ''ABCD'' ''Demo''
              [\<lparr>p_id = ''alice'', p_name = ''Alice'', p_score = 0\<rparr>]),
           (ToRoom ''ABCD'', PlayerJoined
              [\<lparr>p_id = ''alice'', p_name = ''Alice'', p_score = 0\<rparr>] ''Demo'')])
   \<and> submitAnswer ex_lobby ''alice'' ''abcd'' (JStr ''4'') = Inr (ex_lobby, [])"
proof -
  have h2: "map_of (rooms ex_created) ''ABCD'' = Some ex_room_created"
    by (simp add: ex_defs)
  have lc: "toLowerCase ''ABCD'' = ''abcd''"
    by (simp add: case_defs)
  have h3: "toLowerCase ''ABCD'' \<noteq> ''ABCD''"
    by (simp add: lc)
  have j: "joinQuiz ex_created ''alice'' ''abcd'' ''Alice'' =
        Inr (ex_lobby,
          [(ToSocket ''alice'', JoinedRoom ''ABCD'' ''Demo''
              [\<lparr>p_id = ''alice'', p_name = ''Alice'', p_score = 0\<rparr>]),
           (ToRoom ''ABCD'', PlayerJoined
              [\<lparr>p_id = ''alice'', p_name = ''Alice'', p_score = 0\<rparr>] ''Demo'')])"
    using ex_step_join by simp
  note inst = submitAnswer_lowercase [OF ex_reachable_created h2 h3, of "''alice''" "JStr ''4''",
      unfolded lc]
  from inst have a: "submitAnswer ex_created ''alice'' ''abcd'' (JStr ''4'') = Inr (ex_created, [])"
    by (rule conjunct1)
  from inst j have b: "submitAnswer ex_lobby ''alice'' ''abcd'' (JStr ''4'') = Inr (ex_lobby, [])"
    by blast
  show ?thesis using ex_reachable_created h2 lc a j b by simp
qed

text \<open>
  A generated code may consist of digits only (\<open>substring_2_6 ''0.1234xyz''\<close>). Its
  lower-case form is the code itself, so \<open>submitAnswer\<close> with it finds the room and
  records the answer.
\<close>

theorem submitAnswer_lowercase_counterexample:
  "reachable ex_digits_q0
   \<and> toUpperCase ''1234'' = ''1234'' \<and> toLowerCase ''1234'' = ''1234''
   \<and> map_of (rooms ex_digits_q0) ''1234'' = Some ex_room_q0
   \<and> submitAnswer ex_digits_q0 ''alice'' (toLowerCase ''1234'') (JStr ''4'') =
        Inr (ex_digits_answered,
             [(ToSocket ''host'', UpdateLeaderboard
                 [\<lparr>name = ''Alice'', score = 10,
                   answers = [\<lparr>question = 0, answer = JStr ''4'', correct = True\<rparr>]\<rparr>]),
              (ToSocket ''alice'', ScoreUpdate 10)])
   \<and> ex_digits_answered \<noteq> ex_digits_q0"
proof -
  have c: "toUpperCase ''1234'' = ''1234''" "toLowerCase ''1234'' = ''1234''"
    by (simp_all add: case_defs)
  have "submitAnswer ex_digits_q0 ''alice'' ''1234'' (JStr ''4'') =
        Inr (ex_digits_answered,
             [(ToSocket ''host'', UpdateLeaderboard
                 [\<lparr>name = ''Alice'', score = 10,
                   answers = [\<lparr>question = 0, answer = JStr ''4'', correct = True\<rparr>]\<rparr>]),
              (ToSocket ''alice'', ScoreUpdate 10)])"
    by (simp add: submitAnswer_def rooms_get_def rooms_set_def index_opt_def
          sortedLeaderboard_def js_sort_def Object_values_def ex_defs Let_def)
  moreover have "map_of (rooms ex_digits_q0) ''1234'' = Some ex_room_q0"
    by (simp add: ex_defs)
  moreover have "ex_digits_answered \<noteq> ex_digits_q0"
    by (simp add: ex_defs)
  ultimately show ?thesis using c ex_reachable_digits_q0 by simp
qed

section \<open>When submitAnswer rejects\<close>

text \<open>
  The handler does not look at the state of the quiz. For a code that names a member
  of \<open>Object.prototype\<close>, and for a room whose index is not the index of a question
  (lobby, finished) when the participant has no record for that index, reading
  \<open>leaderboard\<close> or \<open>correctAnswer\<close> of \<open>undefined\<close> throws.
\<close>

lemma submitAnswer_throws:
  "(map_of (rooms st) roomCode = None \<and> roomCode \<in> set Object_prototype_keys \<longrightarrow>
      submitAnswer st sid roomCode ans = Inl TypeError)
   \<and> (\<forall>r qz. map_of (rooms st) roomCode = Some r
          \<and> \<not> list_ex (\<lambda>a. question a = currentQuestion r)
                (case map_of (leaderboard r) sid of Some e \<Rightarrow> answers e | None \<Rightarrow> [])
          \<and> map_of (quizzes st) (quizId r) = Some qz
          \<and> \<not> (0 \<le> currentQuestion r \<and> currentQuestion r < int (length (questions qz)))
        \<longrightarrow> submitAnswer st sid roomCode ans = Inl TypeError)"
  by (auto simp: submitAnswer_def rooms_get_def index_opt_def Let_def)

text \<open>
  C4, as the code has it. \<open>submitAnswer\<close> returns with the state unchanged and nothing
  emitted when no room is stored under the code (and the code names no member of
  \<open>Object.prototype\<close>), and when the participant already has a record for the
  current index. When the room is at a question and the participant has no
  leaderboard entry, the state is unchanged as well, but the sorted leaderboard still
  goes to the host and \<open>scoreUpdate 0\<close> to the sender.
\<close>

theorem submitAnswer_rejects:
  "(map_of (rooms st) roomCode = None \<and> roomCode \<notin> set Object_prototype_keys \<longrightarrow>
      submitAnswer st sid roomCode ans = Inr (st, []))
   \<and> (\<forall>r e. map_of (rooms st) roomCode = Some r \<and> map_of (leaderboard r) sid = Some e
          \<and> list_ex (\<lambda>a. question a = currentQuestion r) (answers e) \<longrightarrow>
        submitAnswer st sid roomCode ans = Inr (st, []))
   \<and> (\<forall>r qz cq. map_of (rooms st) roomCode = Some r \<and> map_of (leaderboard r) sid = None
          \<and> map_of (quizzes st) (quizId r) = Some qz
          \<and> index_opt (questions qz) (currentQuestion r) = Some cq \<longrightarrow>
        submitAnswer st sid roomCode ans =
          Inr (st, (if hostId r \<noteq> []
                    then [(ToSocket (hostId r),
                           UpdateLeaderboard (sortedLeaderboard (leaderboard r)))]
                    else [])
                   @ [(ToSocket sid, ScoreUpdate 0)]))"
proof (intro conjI allI impI)
  assume "map_of (rooms st) roomCode = None \<and> roomCode \<notin> set Object_prototype_keys"
  then show "submitAnswer st sid roomCode ans = Inr (st, [])"
    by (simp add: submitAnswer_def rooms_get_def)
next
  fix r e
  assume "map_of (rooms st) roomCode = Some r \<and> map_of (leaderboard r) sid = Some e
          \<and> list_ex (\<lambda>a. question a = currentQuestion r) (answers e)"
  then show "submitAnswer st sid roomCode ans = Inr (st, [])"
    by (simp add: submitAnswer_def rooms_get_def)
next
  fix r qz cq
  assume a: "map_of (rooms st) roomCode = Some r \<and> map_of (leaderboard r) sid = None
          \<and> map_of (quizzes st) (quizId r) = Some qz
          \<and> index_opt (questions qz) (currentQuestion r) = Some cq"
  then have "AList.update roomCode r (rooms st) = rooms st"
    by (simp add: update_triv)
  with a show "submitAnswer st sid roomCode ans =
          Inr (st, (if hostId r \<noteq> []
                    then [(ToSocket (hostId r),
                           UpdateLeaderboard (sortedLeaderboard (leaderboard r)))]
                    else [])
                   @ [(ToSocket sid, ScoreUpdate 0)])"
    by (simp add: submitAnswer_def rooms_get_def rooms_set_def Let_def)
qed

theorem submitAnswer_rejects_witness:
  "map_of (rooms ex_q0) ''WXYZ'' = None \<and> ''WXYZ'' \<notin> set Object_prototype_keys
   \<and> submitAnswer ex_q0 ''alice'' ''WXYZ'' (JStr ''4'') = Inr (ex_q0, [])
   \<and> map_of (rooms ex_answered) ''ABCD'' = Some ex_room_answered
   \<and> submitAnswer ex_answered ''alice'' ''ABCD'' (JStr ''3'') = Inr (ex_answered, [])
   \<and> map_of (rooms ex_q0) ''ABCD'' = Some ex_room_q0
   \<and> map_of (leaderboard ex_room_q0) ''mallory'' = None
   \<and> submitAnswer ex_q0 ''mallory'' ''ABCD'' (JStr ''4'') =
        Inr (ex_q0,
             [(ToSocket ''host'', UpdateLeaderboard
                 [\<lparr>name = ''Alice'', score = 0, answers = []\<rparr>]),
              (ToSocket ''mallory'', ScoreUpdate 0)])"
proof -
  have a: "map_of (rooms ex_q0) ''WXYZ'' = None \<and> ''WXYZ'' \<notin> set Object_prototype_keys"
    by (simp add: ex_defs Object_prototype_keys_def)
  have b: "map_of (rooms ex_answered) ''ABCD'' = Some ex_room_answered
           \<and> map_of (leaderboard ex_room_answered) ''alice'' =
               Some \<lparr>name = ''Alice'', score = 10,
                     answers = [\<lparr>question = 0, answer = JStr ''4'', correct = True\<rparr>]\<rparr>
           \<and> list_ex (\<lambda>a. question a = currentQuestion ex_room_answered)
               (answers \<lparr>name = ''Alice'', score = 10,
                     answers = [\<lparr>question = 0, answer = JStr ''4'', correct = True\<rparr>]\<rparr>)"
    by (simp add: ex_defs)
  have c: "map_of (rooms ex_q0) ''ABCD'' = Some ex_room_q0
           \<and> map_of (leaderboard ex_room_q0) ''mallory'' = None
           \<and> map_of (quizzes ex_q0) (quizId ex_room_q0) = Some ex_quiz
           \<and> index_opt (questions ex_quiz) (currentQuestion ex_room_q0) = Some ex_question0"
    by (simp add: ex_defs index_opt_def)
  from submitAnswer_rejects [of ex_q0 "''WXYZ''" "''alice''" "JStr ''4''"] a
  have 1: "submitAnswer ex_q0 ''alice'' ''WXYZ'' (JStr ''4'') = Inr (ex_q0, [])"
    by blast
  from submitAnswer_rejects [of ex_answered "''ABCD''" "''alice''" "JStr ''3''"] b
  have 2: "submitAnswer ex_answered ''alice'' ''ABCD'' (JStr ''3'') = Inr (ex_answered, [])"
    by blast
  from submitAnswer_rejects [of ex_q0 "''ABCD''" "''mallory''" "JStr ''4''"] c
  have "submitAnswer ex_q0 ''mallory'' ''ABCD'' (JStr ''4'') =
          Inr (ex_q0, (if hostId ex_room_q0 \<noteq> []
                    then [(ToSocket (hostId ex_room_q0),
                           UpdateLeaderboard (sortedLeaderboard (leaderboard ex_room_q0)))]
                    else [])
                   @ [(ToSocket ''mallory'', ScoreUpdate 0)])"
    by blast
  then have 3: "submitAnswer ex_q0 ''mallory'' ''ABCD'' (JStr ''4'') =
        Inr (ex_q0,
             [(ToSocket ''host'', UpdateLeaderboard
                 [\<lparr>name = ''Alice'', score = 0, answers = []\<rparr>]),
              (ToSocket ''mallory'', ScoreUpdate 0)])"
    by (simp add: sortedLeaderboard_def js_sort_def Object_values_def ex_defs)
  from a b c 1 2 3 show ?thesis by blast
qed

text \<open>
  In the example, a socket that never joined submits while question 0 is current: the
  host and the socket each get a message. A player who submits in the lobby, or after
  the quiz has finished, makes the handler throw.
\<close>

theorem submitAnswer_rejects_counterexample:
  "map_of (rooms ex_q0) ''ABCD'' = Some ex_room_q0
   \<and> map_of (leaderboard ex_room_q0) ''mallory'' = None
   \<and> submitAnswer ex_q0 ''mallory'' ''ABCD'' (JStr ''4'') =
        Inr (ex_q0,
             [(ToSocket ''host'', UpdateLeaderboard
                 [\<lparr>name = ''Alice'', score = 0, answers = []\<rparr>]),
              (ToSocket ''mallory'', ScoreUpdate 0)])
   \<and> map_option currentQuestion (map_of (rooms ex_lobby) ''ABCD'') = Some (- 1)
   \<and> submitAnswer ex_lobby ''alice'' ''ABCD'' (JStr ''4'') = Inl TypeError
   \<and> map_option currentQuestion (map_of (rooms ex_finished) ''ABCD'') = Some 2
   \<and> submitAnswer ex_finished ''alice'' ''ABCD'' (JStr ''4'') = Inl TypeError"
  by (simp add: submitAnswer_def rooms_get_def rooms_set_def index_opt_def
        sortedLeaderboard_def js_sort_def Object_values_def ex_defs Let_def)

section \<open>Sorting the leaderboard\<close>








section \<open>What the handlers emit\<close>


lemma submitAnswer_accepted:
  assumes "map_of (rooms st) code = Some r"
      and "\<not> list_ex (\<lambda>a. question a = currentQuestion r)
                (case map_of (leaderboard r) sid of Some e \<Rightarrow> answers e | None \<Rightarrow> [])"
      and "map_of (quizzes st) (quizId r) = Some qz"
      and "index_opt (questions qz) (currentQuestion r) = Some cq"
  shows "submitAnswer st sid code ans =
           Inr (rooms_set code (r\<lparr>leaderboard := recorded r sid ans cq\<rparr>) st,
                (if hostId r \<noteq> []
                 then [(ToSocket (hostId r),
                        UpdateLeaderboard (sortedLeaderboard (recorded r sid ans cq)))]
                 else [])
                @ [(ToSocket sid,
                    ScoreUpdate (case map_of (recorded r sid ans cq) sid of
                                   Some e \<Rightarrow> score e | None \<Rightarrow> 0))])"
  using assms
  by (cases "map_of (leaderboard r) sid")
     (simp_all add: submitAnswer_def rooms_get_def recorded_def Let_def)






section \<open>Rankings\<close>



section \<open>Disconnecting\<close>

lemmas key_defs = own_keys_def is_array_index_def digit_value_def digits_value_def

lemma own_keys_example:
  "own_keys [(''AB'', 1::nat), (''12'', 2), (''7'', 3), (''07'', 4)] =
     [''7'', ''12'', ''AB'', ''07'']"
  by (simp add: key_defs)

lemma ex_two_rooms_keys: "own_keys (rooms ex_two_rooms) = [''ABCD'', ''WXYZ'']"
  by (simp add: key_defs ex_defs)

lemma ex_disconnect_bob:
  "disconnect ex_two_rooms ''bob'' =
     Inr (ex_two_rooms_left,
          [(ToRoom ''ABCD'', PlayerJoined
              [\<lparr>p_id = ''alice'', p_name = ''Alice'', p_score = 0\<rparr>] ''Demo'')])"
  by (simp add: disconnect_def ex_two_rooms_keys)
     (simp add: ex_defs rooms_set_def splice1_def Let_def)

lemma set_own_keys: "set (own_keys obj) = fst ` set obj"
  by (auto simp: own_keys_def)

lemma findIndex_None: "findIndex p xs = None \<longleftrightarrow> (\<forall>x \<in> set xs. \<not> p x)"
  by (induction xs) (auto split: option.splits)

lemma findIndex_Some:
  "findIndex p xs = Some i \<Longrightarrow> i < length xs \<and> p (xs ! i) \<and> (\<forall>j < i. \<not> p (xs ! j))"
proof (induction xs arbitrary: i)
  case Nil
  then show ?case by simp
next
  case (Cons x xs)
  show ?case
  proof (cases "p x")
    case True
    with Cons.prems show ?thesis by simp
  next
    case False
    with Cons.prems obtain k where k: "findIndex p xs = Some k" "i = Suc k"
      by (auto split: option.splits)
    from Cons.IH [OF k(1)] False k(2) show ?thesis
      by (auto simp: nth_Cons split: nat.splits)
  qed
qed

lemma length_splice1: "i < length xs \<Longrightarrow> length (splice1 i xs) + 1 = length xs"
  by (simp add: splice1_def)

lemma filter_splice1:
  assumes "i < length xs" "\<not> q (xs ! i)"
  shows "filter q (splice1 i xs) = filter q xs"
proof -
  have "xs = take i xs @ xs ! i # drop (Suc i) xs"
    using assms(1) by (simp add: id_take_nth_drop)
  then have "filter q xs = filter q (take i xs) @ filter q (xs ! i # drop (Suc i) xs)"
    by (metis filter_append)
  with assms(2) show ?thesis by (simp add: splice1_def)
qed

lemma disconnect_loop_player:
  assumes "\<forall>k r. map_of (rooms st) k = Some r \<longrightarrow> hostId r \<noteq> sid"
      and "\<exists>k \<in> set ks. \<exists>r. map_of (rooms st) k = Some r \<and> sid \<in> p_id ` set (players r)"
  shows "\<exists>code r i. code \<in> set ks \<and> map_of (rooms st) code = Some r
           \<and> findIndex (\<lambda>p. p_id p = sid) (players r) = Some i
           \<and> disconnect_loop sid ks st =
               (rooms_set code
                  (r\<lparr>players := splice1 i (players r),
                     leaderboard := AList.delete sid (leaderboard r)\<rparr>) st,
                [(ToRoom code, PlayerJoined (splice1 i (players r)) (title r))])"
  using assms(2)
proof (induction ks)
  case Nil
  then show ?case by simp
next
  case (Cons k ks)
  show ?case
  proof (cases "map_of (rooms st) k")
    case None
    with Cons.prems have "\<exists>k \<in> set ks. \<exists>r. map_of (rooms st) k = Some r
                            \<and> sid \<in> p_id ` set (players r)"
      by auto
    from Cons.IH [OF this] None show ?thesis by auto
  next
    case (Some r)
    with assms(1) have nh: "hostId r \<noteq> sid" by blast
    show ?thesis
    proof (cases "findIndex (\<lambda>p. p_id p = sid) (players r)")
      case None
      then have "sid \<notin> p_id ` set (players r)"
        by (auto simp: findIndex_None)
      with Cons.prems Some have "\<exists>k \<in> set ks. \<exists>r. map_of (rooms st) k = Some r
                            \<and> sid \<in> p_id ` set (players r)"
        by auto
      from Cons.IH [OF this] Some nh None show ?thesis by auto
    next
      case (Some i)
      with \<open>map_of (rooms st) k = Some r\<close> nh show ?thesis
        by (intro exI [of _ k] exI [of _ r] exI [of _ i]) (simp add: Let_def)
    qed
  qed
qed

lemma ex_step_rejoin:
  "handle ex_answered (JoinQuiz ''alice'' ''abcd'' ''Alice'') =
     Inr (ex_rejoined,
          [(ToSocket ''alice'', JoinedRoom ''ABCD'' ''Demo''
              [\<lparr>p_id = ''alice'', p_name = ''Alice'', p_score = 0\<rparr>,
               \<lparr>p_id = ''alice'', p_name = ''Alice'', p_score = 0\<rparr>]),
           (ToRoom ''ABCD'', PlayerJoined
              [\<lparr>p_id = ''alice'', p_name = ''Alice'', p_score = 0\<rparr>,
               \<lparr>p_id = ''alice'', p_name = ''Alice'', p_score = 0\<rparr>] ''Demo'')])"
  by (simp add: joinQuiz_def rooms_get_def rooms_set_def ex_defs case_defs Let_def)

lemma ex_reachable_rejoined: "reachable ex_rejoined"
  using reachable_step [OF ex_reachable_answered ex_step_rejoin] .

lemma count_splice1:
  assumes "i < length xs" "q (xs ! i)"
  shows "length (filter q (splice1 i xs)) + 1 = length (filter q xs)"
proof -
  have "xs = take i xs @ xs ! i # drop (Suc i) xs"
    using assms(1) by (simp add: id_take_nth_drop)
  then have "filter q xs = filter q (take i xs) @ filter q (xs ! i # drop (Suc i) xs)"
    by (metis filter_append)
  with assms(2) show ?thesis by (simp add: splice1_def)
qed

text \<open>
  C9, as the code has it. When the socket is the host of no room and is in the roster
  of some room, \<open>disconnect\<close> changes exactly one room, one whose roster has the
  socket: it removes the socket's first roster entry, so the socket has one roster
  entry fewer (the other entries stay, in their order), and removes the socket's
  leaderboard entry (the other entries stay as they are), and broadcasts the new
  roster and the title to that room. The socket is out of the roster afterwards
  exactly when it had a single entry there, that is, when it had joined the room
  once. The room's index, title, host, timer and quiz, all other rooms, the quizzes
  and the pending timers are unchanged.
\<close>

theorem disconnect_player:
  assumes "list_all (\<lambda>kr. hostId (snd kr) \<noteq> sid) (rooms st)"
      and "map_of (rooms st) k0 = Some r0" and "sid \<in> p_id ` set (players r0)"
  shows "\<exists>code r i.
           map_of (rooms st) code = Some r
         \<and> findIndex (\<lambda>p. p_id p = sid) (players r) = Some i
         \<and> i < length (players r) \<and> p_id (players r ! i) = sid
         \<and> disconnect st sid =
             Inr (st\<lparr>rooms := AList.update code
                                 (r\<lparr>players := splice1 i (players r),
                                    leaderboard := AList.delete sid (leaderboard r)\<rparr>)
                                 (rooms st)\<rparr>,
                  [(ToRoom code, PlayerJoined (splice1 i (players r)) (title r))])
         \<and> length (splice1 i (players r)) + 1 = length (players r)
         \<and> filter (\<lambda>p. p_id p \<noteq> sid) (splice1 i (players r)) =
             filter (\<lambda>p. p_id p \<noteq> sid) (players r)
         \<and> length (filter (\<lambda>p. p_id p = sid) (splice1 i (players r))) + 1 =
             length (filter (\<lambda>p. p_id p = sid) (players r))
         \<and> (sid \<notin> p_id ` set (splice1 i (players r)) \<longleftrightarrow>
              length (filter (\<lambda>p. p_id p = sid) (players r)) = 1)
         \<and> map_of (AList.delete sid (leaderboard r)) sid = None
         \<and> (\<forall>sid'. sid' \<noteq> sid \<longrightarrow>
               map_of (AList.delete sid (leaderboard r)) sid' = map_of (leaderboard r) sid')
         \<and> (\<forall>code'. code' \<noteq> code \<longrightarrow>
               map_of (AList.update code
                         (r\<lparr>players := splice1 i (players r),
                            leaderboard := AList.delete sid (leaderboard r)\<rparr>)
                         (rooms st)) code' = map_of (rooms st) code')"
proof -
  from assms(2) have "k0 \<in> set (own_keys (rooms st))"
    by (simp add: set_own_keys map_of_key)
  with assms(2,3)
  have "\<exists>k \<in> set (own_keys (rooms st)). \<exists>r. map_of (rooms st) k = Some r
          \<and> sid \<in> p_id ` set (players r)"
    by blast
  moreover have "\<forall>k r. map_of (rooms st) k = Some r \<longrightarrow> hostId r \<noteq> sid"
  proof (intro allI impI)
    fix k r assume "map_of (rooms st) k = Some r"
    then have "(k, r) \<in> set (rooms st)" by (rule map_of_SomeD)
    with assms(1) show "hostId r \<noteq> sid" by (auto simp: list_all_iff)
  qed
  ultimately obtain code r i where
    r: "map_of (rooms st) code = Some r"
    and i: "findIndex (\<lambda>p. p_id p = sid) (players r) = Some i"
    and d: "disconnect_loop sid (own_keys (rooms st)) st =
               (rooms_set code
                  (r\<lparr>players := splice1 i (players r),
                     leaderboard := AList.delete sid (leaderboard r)\<rparr>) st,
                [(ToRoom code, PlayerJoined (splice1 i (players r)) (title r))])"
    using disconnect_loop_player [of st sid "own_keys (rooms st)"] by blast
  from findIndex_Some [OF i]
  have b: "i < length (players r)" "p_id (players r ! i) = sid" by simp_all
  have f: "filter (\<lambda>p. p_id p \<noteq> sid) (splice1 i (players r)) =
             filter (\<lambda>p. p_id p \<noteq> sid) (players r)"
    using b by (intro filter_splice1) simp_all
  have e: "disconnect st sid =
             Inr (st\<lparr>rooms := AList.update code
                                 (r\<lparr>players := splice1 i (players r),
                                    leaderboard := AList.delete sid (leaderboard r)\<rparr>)
                                 (rooms st)\<rparr>,
                  [(ToRoom code, PlayerJoined (splice1 i (players r)) (title r))])"
    by (simp add: disconnect_def d rooms_set_def)
  have g: "map_of (AList.delete sid (leaderboard r)) sid = None"
    by (simp add: delete_conv')
  have h: "\<forall>sid'. sid' \<noteq> sid \<longrightarrow>
               map_of (AList.delete sid (leaderboard r)) sid' = map_of (leaderboard r) sid'"
    by (simp add: delete_conv')
  have k: "\<forall>code'. code' \<noteq> code \<longrightarrow>
               map_of (AList.update code
                         (r\<lparr>players := splice1 i (players r),
                            leaderboard := AList.delete sid (leaderboard r)\<rparr>)
                         (rooms st)) code' = map_of (rooms st) code'"
    by (simp add: update_conv')
  have n: "length (filter (\<lambda>p. p_id p = sid) (splice1 i (players r))) + 1 =
             length (filter (\<lambda>p. p_id p = sid) (players r))"
    using count_splice1 [of i "players r" "\<lambda>p. p_id p = sid"] b by simp
  have "sid \<notin> p_id ` set (splice1 i (players r)) \<longleftrightarrow>
          length (filter (\<lambda>p. p_id p = sid) (splice1 i (players r))) = 0"
    by (auto simp: filter_empty_conv)
  with n have m: "sid \<notin> p_id ` set (splice1 i (players r)) \<longleftrightarrow>
             length (filter (\<lambda>p. p_id p = sid) (players r)) = 1"
    by arith
  note l = length_splice1 [OF b(1)]
  from r i b e l f n m g h k show ?thesis by (intro exI conjI)
qed

theorem disconnect_player_witness:
  "list_all (\<lambda>kr. hostId (snd kr) \<noteq> ''bob'') (rooms ex_two_rooms)
   \<and> map_of (rooms ex_two_rooms) ''ABCD'' = Some ex_room_two
   \<and> ''bob'' \<in> p_id ` set (players ex_room_two)
   \<and> disconnect ex_two_rooms ''bob'' =
       Inr (ex_two_rooms_left,
            [(ToRoom ''ABCD'', PlayerJoined
                [\<lparr>p_id = ''alice'', p_name = ''Alice'', p_score = 0\<rparr>] ''Demo'')])
   \<and> map_option (map p_id \<circ> players) (map_of (rooms ex_two_rooms_left) ''ABCD'') =
       Some [''alice'']
   \<and> (\<exists>code r i.
           map_of (rooms ex_two_rooms) code = Some r
         \<and> findIndex (\<lambda>p. p_id p = ''bob'') (players r) = Some i
         \<and> disconnect ex_two_rooms ''bob'' =
             Inr (ex_two_rooms\<lparr>rooms := AList.update code
                                 (r\<lparr>players := splice1 i (players r),
                                    leaderboard := AList.delete ''bob'' (leaderboard r)\<rparr>)
                                 (rooms ex_two_rooms)\<rparr>,
                  [(ToRoom code, PlayerJoined (splice1 i (players r)) (title r))]))"
proof -
  have h4: "map_option (map p_id \<circ> players) (map_of (rooms ex_two_rooms_left) ''ABCD'') =
       Some [''alice'']"
    by (simp add: ex_defs)
  have h1: "list_all (\<lambda>kr. hostId (snd kr) \<noteq> ''bob'') (rooms ex_two_rooms)"
    by (simp add: ex_defs)
  have h2: "map_of (rooms ex_two_rooms) ''ABCD'' = Some ex_room_two"
    by (simp add: ex_defs)
  have h3: "''bob'' \<in> p_id ` set (players ex_room_two)"
    by (simp add: ex_defs)
  from disconnect_player [OF h1 h2 h3]
  have "\<exists>code r i.
           map_of (rooms ex_two_rooms) code = Some r
         \<and> findIndex (\<lambda>p. p_id p = ''bob'') (players r) = Some i
         \<and> disconnect ex_two_rooms ''bob'' =
             Inr (ex_two_rooms\<lparr>rooms := AList.update code
                                 (r\<lparr>players := splice1 i (players r),
                                    leaderboard := AList.delete ''bob'' (leaderboard r)\<rparr>)
                                 (rooms ex_two_rooms)\<rparr>,
                  [(ToRoom code, PlayerJoined (splice1 i (players r)) (title r))])"
    by (elim exE conjE, intro exI conjI)
  with h1 h2 h3 h4 ex_disconnect_bob show ?thesis by (intro conjI)
qed

text \<open>
  \<open>joinQuiz\<close> appends to the roster without looking for the socket there. In the
  example Alice has joined the room twice; \<open>disconnect\<close> removes her first roster
  entry and her leaderboard entry, and her second roster entry stays.
\<close>

theorem disconnect_double_join_counterexample:
  "reachable ex_rejoined
   \<and> list_all (\<lambda>kr. hostId (snd kr) \<noteq> ''alice'') (rooms ex_rejoined)
   \<and> map_option (map p_id \<circ> players) (map_of (rooms ex_rejoined) ''ABCD'') =
        Some [''alice'', ''alice'']
   \<and> disconnect ex_rejoined ''alice'' =
        Inr (ex_stale_roster,
             [(ToRoom ''ABCD'', PlayerJoined
                 [\<lparr>p_id = ''alice'', p_name = ''Alice'', p_score = 0\<rparr>] ''Demo'')])
   \<and> map_option (map p_id \<circ> players) (map_of (rooms ex_stale_roster) ''ABCD'') =
        Some [''alice'']
   \<and> map_option leaderboard (map_of (rooms ex_stale_roster) ''ABCD'') = Some []"
proof -
  have k: "own_keys (rooms ex_rejoined) = [''ABCD'']"
    by (simp add: key_defs ex_defs)
  have d: "disconnect ex_rejoined ''alice'' =
        Inr (ex_stale_roster,
             [(ToRoom ''ABCD'', PlayerJoined
                 [\<lparr>p_id = ''alice'', p_name = ''Alice'', p_score = 0\<rparr>] ''Demo'')])"
    by (simp add: disconnect_def k) (simp add: ex_defs rooms_set_def splice1_def Let_def)
  have c: "list_all (\<lambda>kr. hostId (snd kr) \<noteq> ''alice'') (rooms ex_rejoined)"
    "map_option (map p_id \<circ> players) (map_of (rooms ex_rejoined) ''ABCD'') =
        Some [''alice'', ''alice'']"
    "map_option (map p_id \<circ> players) (map_of (rooms ex_stale_roster) ''ABCD'') =
        Some [''alice'']"
    "map_option leaderboard (map_of (rooms ex_stale_roster) ''ABCD'') = Some []"
    by (simp_all add: ex_defs)
  from ex_reachable_rejoined c d show ?thesis by (intro conjI)
qed

section \<open>One answer per question\<close>

lemma submitAnswer_again:
  assumes "submitAnswer st sid code a = Inr (st1, out1)"
  shows "\<exists>out2. submitAnswer st1 sid code a' = Inr (st1, out2)"
proof (cases "rooms_get st code")
  case (Own r)
  then have r: "map_of (rooms st) code = Some r" by (rule rooms_get_OwnD)
  show ?thesis
  proof (cases "list_ex (\<lambda>a. question a = currentQuestion r)
                  (case map_of (leaderboard r) sid of Some e \<Rightarrow> answers e | None \<Rightarrow> [])")
    case True
    with assms Own have "st1 = st" by (simp add: submitAnswer_def)
    with True Own show ?thesis by (simp add: submitAnswer_def)
  next
    case False
    from assms Own False obtain qz cq where
      q: "map_of (quizzes st) (quizId r) = Some qz"
         "index_opt (questions qz) (currentQuestion r) = Some cq"
      by (auto simp: submitAnswer_def Let_def split: option.splits)
    let ?r1 = "r\<lparr>leaderboard := recorded r sid a cq\<rparr>"
    from submitAnswer_accepted [OF r False q, of a] assms
    have st1: "st1 = rooms_set code ?r1 st" by simp
    then have r1: "map_of (rooms st1) code = Some ?r1"
      by (simp add: update_conv')
    show ?thesis
    proof (cases "map_of (leaderboard r) sid")
      case None
      then have "recorded r sid a cq = leaderboard r" by (simp add: recorded_def)
      with st1 r have same: "st1 = st" by (simp add: rooms_set_def update_triv)
      from r None q have "\<not> list_ex (\<lambda>a. question a = currentQuestion r)
          (case map_of (leaderboard r) sid of Some e \<Rightarrow> answers e | None \<Rightarrow> [])"
        by simp
      from submitAnswer_accepted [OF r this q, of a'] None r
      show ?thesis unfolding same
        by (simp add: recorded_def rooms_set_def update_triv)
    next
      case (Some e)
      then obtain e' where e': "map_of (recorded r sid a cq) sid = Some e'"
        "list_ex (\<lambda>x. question x = currentQuestion r) (answers e')"
        by (auto simp: recorded_def update_conv')
      with r1 have "submitAnswer st1 sid code a' = Inr (st1, [])"
        by (simp add: submitAnswer_def rooms_get_def)
      then show ?thesis by blast
    qed
  qed
next
  case Inherited
  with assms show ?thesis by (simp add: submitAnswer_def)
next
  case Absent
  with assms have "st1 = st" by (simp add: submitAnswer_def)
  with Absent show ?thesis by (simp add: submitAnswer_def)
qed

lemma submitAnswers_fixed:
  assumes "\<And>a'. \<exists>out. submitAnswer st1 sid code a' = Inr (st1, out)"
  shows "submitAnswers st1 sid code as = Inr st1"
proof (induction as)
  case Nil
  show ?case by simp
next
  case (Cons a as)
  from assms obtain out where "submitAnswer st1 sid code a = Inr (st1, out)" by blast
  with Cons show ?case by simp
qed

lemma submitAnswer_known_again:
  assumes "submitAnswer st sid code a = Inr (st1, out1)"
      and "map_of (rooms st1) code = Some r1" and "map_of (leaderboard r1) sid = Some e1"
  shows "submitAnswer st1 sid code a' = Inr (st1, [])"
proof (cases "rooms_get st code")
  case (Own r)
  then have r: "map_of (rooms st) code = Some r" by (rule rooms_get_OwnD)
  show ?thesis
  proof (cases "list_ex (\<lambda>a. question a = currentQuestion r)
                  (case map_of (leaderboard r) sid of Some e \<Rightarrow> answers e | None \<Rightarrow> [])")
    case True
    with assms Own have "st1 = st" by (simp add: submitAnswer_def)
    with True Own show ?thesis by (simp add: submitAnswer_def)
  next
    case False
    from assms(1) Own False obtain qz cq where
      q: "map_of (quizzes st) (quizId r) = Some qz"
         "index_opt (questions qz) (currentQuestion r) = Some cq"
      by (auto simp: submitAnswer_def Let_def split: option.splits)
    from submitAnswer_accepted [OF r False q, of a] assms(1)
    have st1: "st1 = rooms_set code (r\<lparr>leaderboard := recorded r sid a cq\<rparr>) st" by simp
    with assms(2) have r1: "r1 = r\<lparr>leaderboard := recorded r sid a cq\<rparr>"
      by (simp add: update_conv')
    with assms(3) obtain e where e: "map_of (leaderboard r) sid = Some e"
      by (cases "map_of (leaderboard r) sid") (auto simp: recorded_def)
    with r1 assms(3) have "list_ex (\<lambda>x. question x = currentQuestion r1) (answers e1)"
      by (auto simp: recorded_def update_conv' split: if_splits)
    with assms(2,3) show ?thesis
      by (simp add: submitAnswer_def rooms_get_def)
  qed
next
  case Inherited
  with assms show ?thesis by (simp add: submitAnswer_def)
next
  case Absent
  with assms have "st1 = st" by (simp add: submitAnswer_def)
  with Absent show ?thesis by (simp add: submitAnswer_def)
qed

lemma distinct_count_le_1:
  "distinct (map f xs) \<Longrightarrow> length (filter (\<lambda>x. f x = v) xs) \<le> 1"
  by (induction xs) (auto simp: filter_empty_conv image_iff)

lemma answered_room:
  "answered st sid code i \<Longrightarrow> map_of (rooms st) code = Some r \<Longrightarrow> room_answered r sid i"
  by (simp add: answered_def)

lemma answered_rooms_set:
  "answered st sid code i \<Longrightarrow> (c = code \<Longrightarrow> room_answered r' sid i) \<Longrightarrow>
     answered (rooms_set c r' st) sid code i"
  by (simp add: answered_def update_conv')

lemma answered_delete_room:
  "answered st sid code i \<Longrightarrow> rooms st' = AList.delete k (rooms st) \<Longrightarrow>
     answered st' sid code i"
  by (cases "code = k") (simp_all add: answered_def delete_conv')

lemma room_answered_delete:
  "room_answered r sid i \<Longrightarrow> leaderboard r' = AList.delete s (leaderboard r) \<Longrightarrow>
     room_answered r' sid i"
  by (cases "sid = s") (simp_all add: room_answered_def delete_conv')

lemma room_answered_update_other:
  "room_answered r sid i \<Longrightarrow> s \<noteq> sid \<Longrightarrow>
     leaderboard r' = AList.update s e (leaderboard r) \<Longrightarrow> room_answered r' sid i"
  by (simp add: room_answered_def update_conv')

lemma answered_update_rooms:
  "answered st sid code i \<Longrightarrow> rooms st' = AList.update c r' (rooms st) \<Longrightarrow>
     (c = code \<Longrightarrow> room_answered r' sid i) \<Longrightarrow> answered st' sid code i"
  by (cases "c = code") (simp_all add: answered_def update_conv')

lemma answered_createQuiz:
  assumes "answered st sid code i" "createQuiz st s quizData now rnd = Inr (st', out)"
  shows "answered st' sid code i"
proof -
  let ?r = "\<lparr>rid = next_rid st, quizId = now, title = quiz_title quizData,
             players = [], currentQuestion = - 1, leaderboard = [], hostId = s,
             timer = None\<rparr>"
  have rs: "rooms st' = AList.update (toUpperCase (substring_2_6 rnd)) ?r (rooms st)"
    using assms(2) by (auto simp: createQuiz_def Let_def)
  have ra: "room_answered ?r sid i" by (simp add: room_answered_def)
  show ?thesis by (rule answered_update_rooms [OF assms(1) rs ra])
qed

lemma answered_startQuestionTimer:
  assumes "answered st sid code i" "startQuestionTimer st c = Inr st'"
  shows "answered st' sid code i"
proof -
  from startQuestionTimer_rooms [OF assms(2)]
  consider "rooms st' = rooms st"
    | r h where "map_of (rooms st) c = Some r"
        "rooms st' = AList.update c (r\<lparr>timer := Some h\<rparr>) (rooms st)"
    by blast
  then show ?thesis
  proof cases
    case 1
    with assms(1) show ?thesis by (simp add: answered_def)
  next
    case 2
    have ra: "c = code \<Longrightarrow> room_answered (r\<lparr>timer := Some h\<rparr>) sid i"
    proof -
      assume "c = code"
      with answered_room [OF assms(1)] 2(1) have "room_answered r sid i" by simp
      then show ?thesis by (simp add: room_answered_def)
    qed
    show ?thesis by (rule answered_update_rooms [OF assms(1) 2(2) ra])
  qed
qed

lemma answered_nextQuestion:
  assumes "answered st sid code i" "nextQuestion st c = Inr (st', out)"
  shows "answered st' sid code i"
proof (cases "rooms_get st c")
  case (Own r)
  then have r: "map_of (rooms st) c = Some r" by (rule rooms_get_OwnD)
  let ?st1 = "rooms_set c (r\<lparr>currentQuestion := currentQuestion r + 1\<rparr>) st"
  have "c = code \<Longrightarrow> room_answered (r\<lparr>currentQuestion := currentQuestion r + 1\<rparr>) sid i"
  proof -
    assume "c = code"
    with answered_room [OF assms(1)] r have "room_answered r sid i" by simp
    then show ?thesis by (simp add: room_answered_def)
  qed
  with assms(1) have a1: "answered ?st1 sid code i" by (rule answered_rooms_set)
  from assms(2) Own have "st' = ?st1 \<or> startQuestionTimer ?st1 c = Inr st'"
    by (simp add: nextQuestion_def Let_def split: option.splits if_splits sum.splits)
  with a1 answered_startQuestionTimer [OF a1] show ?thesis by blast
next
  case Inherited
  with assms(2) show ?thesis by (simp add: nextQuestion_def)
next
  case Absent
  with assms show ?thesis by (simp add: nextQuestion_def)
qed

lemma answered_startQuiz:
  assumes "answered st sid code i" "startQuiz st c = Inr (st', out)"
  shows "answered st' sid code i"
proof (cases "rooms_get st c")
  case (Own r)
  then have r: "map_of (rooms st) c = Some r" by (rule rooms_get_OwnD)
  let ?st1 = "rooms_set c (r\<lparr>currentQuestion := 0\<rparr>) st"
  have "c = code \<Longrightarrow> room_answered (r\<lparr>currentQuestion := 0\<rparr>) sid i"
  proof -
    assume "c = code"
    with answered_room [OF assms(1)] r have "room_answered r sid i" by simp
    then show ?thesis by (simp add: room_answered_def)
  qed
  with assms(1) have a1: "answered ?st1 sid code i" by (rule answered_rooms_set)
  from assms(2) Own have "startQuestionTimer ?st1 c = Inr st'"
    by (simp add: startQuiz_def Let_def split: option.splits sum.splits)
  with answered_startQuestionTimer [OF a1] show ?thesis by blast
next
  case Inherited
  with assms(2) show ?thesis by (simp add: startQuiz_def)
next
  case Absent
  with assms show ?thesis by (simp add: startQuiz_def)
qed

lemma answered_joinQuiz:
  assumes "answered st sid code i" "joinQuiz st s c nm = Inr (st', out)"
      and "\<not> (s = sid \<and> toUpperCase c = code)"
  shows "answered st' sid code i"
proof (cases "map_of (rooms st) (toUpperCase c)")
  case None
  with assms show ?thesis by (simp add: joinQuiz_def rooms_get_toUpperCase)
next
  case (Some r)
  let ?r' = "r\<lparr>players := players r @ [\<lparr>p_id = s, p_name = nm, p_score = 0\<rparr>],
               leaderboard := AList.update s \<lparr>name = nm, score = 0, answers = []\<rparr>
                                (leaderboard r)\<rparr>"
  from assms(2) Some have st': "st' = rooms_set (toUpperCase c) ?r' st"
    by (simp add: joinQuiz_def rooms_get_toUpperCase Let_def)
  have "toUpperCase c = code \<Longrightarrow> room_answered ?r' sid i"
  proof -
    assume eq: "toUpperCase c = code"
    with assms(3) have ne: "s \<noteq> sid" by blast
    from answered_room [OF assms(1)] Some eq have "room_answered r sid i" by simp
    from room_answered_update_other [OF this ne, of ?r'] show ?thesis by simp
  qed
  with assms(1) show ?thesis unfolding st' by (rule answered_rooms_set)
qed

lemma answered_submitAnswer:
  assumes "answered st sid code i" "submitAnswer st s c ans = Inr (st', out)"
  shows "answered st' sid code i"
proof (cases "rooms_get st c")
  case (Own r)
  then have r: "map_of (rooms st) c = Some r" by (rule rooms_get_OwnD)
  show ?thesis
  proof (cases "list_ex (\<lambda>a. question a = currentQuestion r)
                  (case map_of (leaderboard r) s of Some e \<Rightarrow> answers e | None \<Rightarrow> [])")
    case True
    with assms Own show ?thesis by (simp add: submitAnswer_def)
  next
    case False
    from assms(2) Own False obtain qz cq where
      q: "map_of (quizzes st) (quizId r) = Some qz"
         "index_opt (questions qz) (currentQuestion r) = Some cq"
      by (auto simp: submitAnswer_def Let_def split: option.splits)
    from submitAnswer_accepted [OF r False q, of ans] assms(2)
    have st': "st' = rooms_set c (r\<lparr>leaderboard := recorded r s ans cq\<rparr>) st" by simp
    have "c = code \<Longrightarrow> room_answered (r\<lparr>leaderboard := recorded r s ans cq\<rparr>) sid i"
    proof -
      assume "c = code"
      with answered_room [OF assms(1)] r have ra: "room_answered r sid i" by simp
      show ?thesis
      proof (cases "map_of (leaderboard r) s")
        case None
        with ra show ?thesis by (simp add: room_answered_def recorded_def)
      next
        case (Some e)
        show ?thesis
        proof (cases "s = sid")
          case True
          with ra Some show ?thesis
            by (simp add: room_answered_def recorded_def update_conv')
        next
          case False
          with ra Some show ?thesis
            by (simp add: room_answered_def recorded_def update_conv')
        qed
      qed
    qed
    with assms(1) show ?thesis unfolding st' by (rule answered_rooms_set)
  qed
next
  case Inherited
  with assms(2) show ?thesis by (simp add: submitAnswer_def)
next
  case Absent
  with assms show ?thesis by (simp add: submitAnswer_def)
qed

lemma answered_disconnect_loop:
  "answered st sid code i \<Longrightarrow> disconnect_loop s ks st = (st', out) \<Longrightarrow>
     answered st' sid code i"
proof (induction ks)
  case Nil
  then show ?case by simp
next
  case (Cons k ks)
  show ?case
  proof (cases "map_of (rooms st) k")
    case None
    with Cons show ?thesis by simp
  next
    case (Some r)
    show ?thesis
    proof (cases "hostId r = s")
      case True
      with Cons.prems(2) Some have "rooms st' = AList.delete k (rooms st)"
        by (cases "timer r") (auto simp: Let_def)
      with Cons.prems(1) show ?thesis by (rule answered_delete_room)
    next
      case False
      show ?thesis
      proof (cases "findIndex (\<lambda>p. p_id p = s) (players r)")
        case None
        with Cons Some False show ?thesis by simp
      next
        case (Some j)
        let ?r' = "r\<lparr>players := splice1 j (players r),
                     leaderboard := AList.delete s (leaderboard r)\<rparr>"
        from Cons.prems(2) \<open>map_of (rooms st) k = Some r\<close> False Some
        have st': "st' = rooms_set k ?r' st" by (simp add: Let_def)
        have "k = code \<Longrightarrow> room_answered ?r' sid i"
        proof -
          assume "k = code"
          with answered_room [OF Cons.prems(1)] \<open>map_of (rooms st) k = Some r\<close>
          have "room_answered r sid i" by simp
          from room_answered_delete [OF this, of ?r' s] show ?thesis by simp
        qed
        with Cons.prems(1) show ?thesis unfolding st' by (rule answered_rooms_set)
      qed
    qed
  qed
qed

lemma answered_fire:
  assumes "answered st sid code i" "fire st h = Inr (st', out)"
  shows "answered st' sid code i"
proof (cases "map_of (pending st) h")
  case None
  with assms show ?thesis by (simp add: fire_def)
next
  case (Some mc)
  obtain ms cb where mc: "mc = (ms, cb)" by (cases mc)
  have a1: "answered (clearTimeout h st) sid code i"
    using assms(1) by (simp add: answered_def)
  show ?thesis
  proof (cases cb)
    case (QuestionTimer c j q)
    with assms Some mc show ?thesis
      by (auto simp: fire_def Let_def answered_def)
  next
    case (GraceDelay c)
    with assms Some mc show ?thesis
      by (auto simp: fire_def Let_def dest: answered_nextQuestion [OF a1])
  qed
qed

lemma answered_handle:
  assumes "answered st sid code i" "handle st ev = Inr (st', out)" "\<not> rejoins sid code ev"
  shows "answered st' sid code i"
proof (cases ev)
  case (CreateQuiz s quizData now rnd)
  with assms show ?thesis by (auto dest: answered_createQuiz)
next
  case (StartQuiz c)
  with assms show ?thesis by (auto dest: answered_startQuiz)
next
  case (NextQuestion c)
  with assms show ?thesis by (auto dest: answered_nextQuestion)
next
  case (JoinQuiz s c nm)
  with assms have "joinQuiz st s c nm = Inr (st', out)" "\<not> (s = sid \<and> toUpperCase c = code)"
    by simp_all
  with assms(1) show ?thesis by (rule answered_joinQuiz)
next
  case (SubmitAnswer s c ans)
  with assms show ?thesis by (auto dest: answered_submitAnswer)
next
  case (Disconnect s)
  with assms show ?thesis by (auto simp: disconnect_def dest: answered_disconnect_loop)
next
  case (TimerFired h)
  with assms show ?thesis by (auto dest: answered_fire)
qed

lemma answered_run:
  "answered st sid code i \<Longrightarrow> run st evs = Inr st' \<Longrightarrow>
     list_all (\<lambda>ev. \<not> rejoins sid code ev) evs \<Longrightarrow> answered st' sid code i"
proof (induction evs arbitrary: st)
  case Nil
  then show ?case by simp
next
  case (Cons ev evs)
  from Cons.prems(2) obtain st1 out where h: "handle st ev = Inr (st1, out)"
    and r: "run st1 evs = Inr st'"
    by (auto split: sum.splits)
  from Cons.prems(3) have n: "\<not> rejoins sid code ev"
    "list_all (\<lambda>ev. \<not> rejoins sid code ev) evs" by simp_all
  from answered_handle [OF Cons.prems(1) h n(1)] have "answered st1 sid code i" .
  from Cons.IH [OF this r n(2)] show ?case .
qed

lemma state_inv_run: "state_inv st \<Longrightarrow> run st evs = Inr st' \<Longrightarrow> state_inv st'"
proof (induction evs arbitrary: st)
  case Nil
  then show ?case by simp
next
  case (Cons ev evs)
  from Cons.prems(2) obtain st1 out where h: "handle st ev = Inr (st1, out)"
    and r: "run st1 evs = Inr st'"
    by (auto split: sum.splits)
  from state_inv_handle [OF Cons.prems(1) h] have "state_inv st1" .
  from Cons.IH [OF this r] show ?case .
qed

lemma submitAnswer_answered:
  assumes "submitAnswer st sid code a = Inr (st1, out1)"
      and "map_of (rooms st1) code = Some r1"
  shows "answered st1 sid code (currentQuestion r1)"
proof (cases "map_of (leaderboard r1) sid")
  case None
  with assms(2) show ?thesis by (simp add: answered_def room_answered_def)
next
  case (Some e1)
  show ?thesis
  proof (cases "rooms_get st code")
    case (Own r)
    then have r: "map_of (rooms st) code = Some r" by (rule rooms_get_OwnD)
    show ?thesis
    proof (cases "list_ex (\<lambda>a. question a = currentQuestion r)
                    (case map_of (leaderboard r) sid of Some e \<Rightarrow> answers e | None \<Rightarrow> [])")
      case True
      with assms Own have "st1 = st" by (simp add: submitAnswer_def)
      with True r assms(2) Some show ?thesis
        by (simp add: answered_def room_answered_def)
    next
      case False
      from assms(1) Own False obtain qz cq where
        q: "map_of (quizzes st) (quizId r) = Some qz"
           "index_opt (questions qz) (currentQuestion r) = Some cq"
        by (auto simp: submitAnswer_def Let_def split: option.splits)
      from submitAnswer_accepted [OF r False q, of a] assms(1)
      have st1: "st1 = rooms_set code (r\<lparr>leaderboard := recorded r sid a cq\<rparr>) st" by simp
      with assms(2) have r1: "r1 = r\<lparr>leaderboard := recorded r sid a cq\<rparr>"
        by (simp add: update_conv')
      with Some obtain e where e: "map_of (leaderboard r) sid = Some e"
        by (cases "map_of (leaderboard r) sid") (auto simp: recorded_def)
      with r1 Some have "list_ex (\<lambda>x. question x = currentQuestion r1) (answers e1)"
        by (auto simp: recorded_def update_conv' split: if_splits)
      with assms(2) Some show ?thesis
        by (simp add: answered_def room_answered_def)
    qed
  next
    case Inherited
    with assms show ?thesis by (simp add: submitAnswer_def)
  next
    case Absent
    with assms have "st1 = st" by (simp add: submitAnswer_def)
    with Absent assms(2) show ?thesis by (simp add: rooms_get_def split: option.splits)
  qed
qed

lemma submitAnswer_answered_noop:
  assumes "answered st sid code i" and "map_of (rooms st) code = Some r"
      and "currentQuestion r = i" and "map_of (leaderboard r) sid = Some e"
  shows "submitAnswer st sid code a = Inr (st, [])"
    and "list_ex (\<lambda>x. question x = i) (answers e)"
proof -
  from assms(1,2,4) show ex: "list_ex (\<lambda>x. question x = i) (answers e)"
    by (simp add: answered_def room_answered_def)
  with assms(2,3,4) show "submitAnswer st sid code a = Inr (st, [])"
    by (simp add: submitAnswer_def rooms_get_def)
qed

lemma distinct_count_eq_1:
  "distinct (map f xs) \<Longrightarrow> list_ex (\<lambda>x. f x = v) xs \<Longrightarrow>
     length (filter (\<lambda>x. f x = v) xs) = 1"
proof -
  assume d: "distinct (map f xs)" and e: "list_ex (\<lambda>x. f x = v) xs"
  from e have "filter (\<lambda>x. f x = v) xs \<noteq> []"
    by (auto simp: list_ex_iff filter_empty_conv)
  then have "0 < length (filter (\<lambda>x. f x = v) xs)" by simp
  with distinct_count_le_1 [OF d, of v] show ?thesis by arith
qed

text \<open>
  C1, as the code has it. In every state the server can reach, no participant has two
  answer records for the same question index, and a \<open>submitAnswer\<close> keeps it so.
  After one \<open>submitAnswer\<close> from a socket for a room has returned, further
  \<open>submitAnswer\<close> events from that socket for that room, with nothing in between,
  leave the state as the first one left it. If the socket has a leaderboard entry in
  the room after the first call, then after any sequence of events in which the socket
  does not join that room again, whenever the room is at the same question and the
  socket still has a leaderboard entry there, that entry has exactly one record for
  the question and a \<open>submitAnswer\<close> from the socket changes nothing and emits
  nothing.
\<close>

theorem submitAnswer_once:
  assumes "reachable st" and "submitAnswer st sid code a = Inr (st1, out1)"
  shows "answers_distinct st \<and> answers_distinct st1
       \<and> submitAnswers st1 sid code as = Inr st1
       \<and> (\<forall>r1 e1. map_of (rooms st1) code = Some r1 \<and> map_of (leaderboard r1) sid = Some e1
            \<longrightarrow> (\<forall>i. length (filter (\<lambda>x. question x = i) (answers e1)) \<le> 1)
                \<and> (\<forall>a'. submitAnswer st1 sid code a' = Inr (st1, []))
                \<and> (\<forall>evs st2 r2 e2 a'.
                       run st1 evs = Inr st2
                     \<and> list_all (\<lambda>ev. \<not> rejoins sid code ev) evs
                     \<and> map_of (rooms st2) code = Some r2
                     \<and> currentQuestion r2 = currentQuestion r1
                     \<and> map_of (leaderboard r2) sid = Some e2
                     \<longrightarrow> submitAnswer st2 sid code a' = Inr (st2, [])
                         \<and> answers_distinct st2
                         \<and> length (filter (\<lambda>x. question x = currentQuestion r1)
                                     (answers e2)) = 1))"
proof (intro conjI allI impI)
  from assms(1) have inv: "state_inv st" by (rule reachable_state_inv)
  then show "answers_distinct st" by (rule state_inv_answers_distinct)
  from state_inv_submitAnswer [OF inv assms(2)]
  show "answers_distinct st1" by (rule state_inv_answers_distinct)
  show "submitAnswers st1 sid code as = Inr st1"
    using submitAnswer_again [OF assms(2)] by (rule submitAnswers_fixed)
next
  fix r1 e1 i
  assume h: "map_of (rooms st1) code = Some r1 \<and> map_of (leaderboard r1) sid = Some e1"
  from assms(1) have "state_inv st" by (rule reachable_state_inv)
  from state_inv_submitAnswer [OF this assms(2)] have inv1: "state_inv st1" .
  from h state_inv_room [OF inv1, of code r1]
  have "list_all entry_ok (leaderboard r1)" by simp
  with h have "entry_ok (sid, e1)"
    using list_all_map_of [of entry_ok "leaderboard r1" sid e1] by simp
  then have "distinct (map question (answers e1))"
    by (simp add: entry_ok_def)
  then show "length (filter (\<lambda>x. question x = i) (answers e1)) \<le> 1"
    by (rule distinct_count_le_1)
next
  fix r1 e1 a'
  assume h: "map_of (rooms st1) code = Some r1 \<and> map_of (leaderboard r1) sid = Some e1"
  then show "submitAnswer st1 sid code a' = Inr (st1, [])"
    using submitAnswer_known_again [OF assms(2)] by blast
next
  fix r1 e1 evs st2 r2 e2 a'
  assume h: "map_of (rooms st1) code = Some r1 \<and> map_of (leaderboard r1) sid = Some e1"
    and g: "run st1 evs = Inr st2
          \<and> list_all (\<lambda>ev. \<not> rejoins sid code ev) evs
          \<and> map_of (rooms st2) code = Some r2
          \<and> currentQuestion r2 = currentQuestion r1
          \<and> map_of (leaderboard r2) sid = Some e2"
  from h have r1: "map_of (rooms st1) code = Some r1" by (rule conjunct1)
  from g have g1: "run st1 evs = Inr st2"
    and g2: "list_all (\<lambda>ev. \<not> rejoins sid code ev) evs"
    and g3: "map_of (rooms st2) code = Some r2"
    and g4: "currentQuestion r2 = currentQuestion r1"
    and g5: "map_of (leaderboard r2) sid = Some e2"
    by blast+
  from assms(1) have "state_inv st" by (rule reachable_state_inv)
  from state_inv_submitAnswer [OF this assms(2)] have "state_inv st1" .
  from state_inv_run [OF this g1] have inv2: "state_inv st2" .
  from submitAnswer_answered [OF assms(2) r1]
  have "answered st1 sid code (currentQuestion r1)" .
  from answered_run [OF this g1 g2] have a2: "answered st2 sid code (currentQuestion r1)" .
  from submitAnswer_answered_noop [OF a2 g3 g4 g5]
  have n: "submitAnswer st2 sid code a' = Inr (st2, [])"
    and ex: "list_ex (\<lambda>x. question x = currentQuestion r1) (answers e2)"
    by blast+
  from inv2 have d2: "answers_distinct st2" by (rule state_inv_answers_distinct)
  from g3 state_inv_room [OF inv2, of code r2]
  have "list_all entry_ok (leaderboard r2)" by simp
  with g5 have "entry_ok (sid, e2)"
    using list_all_map_of [of entry_ok "leaderboard r2" sid e2] by simp
  then have "distinct (map question (answers e2))" by (simp add: entry_ok_def)
  from distinct_count_eq_1 [OF this ex]
  have c: "length (filter (\<lambda>x. question x = currentQuestion r1) (answers e2)) = 1" .
  from n show "submitAnswer st2 sid code a' = Inr (st2, [])" .
  from d2 show "answers_distinct st2" .
  from c show "length (filter (\<lambda>x. question x = currentQuestion r1) (answers e2)) = 1" .
qed


theorem submitAnswer_once_witness:
  "reachable ex_q0
   \<and> submitAnswer ex_q0 ''alice'' ''ABCD'' (JStr ''4'') =
        Inr (ex_answered,
          [(ToSocket ''host'', UpdateLeaderboard
              [\<lparr>name = ''Alice'', score = 10,
                answers = [\<lparr>question = 0, answer = JStr ''4'', correct = True\<rparr>]\<rparr>]),
           (ToSocket ''alice'', ScoreUpdate 10)])
   \<and> answers_distinct ex_q0 \<and> answers_distinct ex_answered
   \<and> submitAnswers ex_answered ''alice'' ''ABCD'' [JStr ''3'', JStr ''4''] = Inr ex_answered
   \<and> map_of (rooms ex_answered) ''ABCD'' = Some ex_room_answered
   \<and> map_of (leaderboard ex_room_answered) ''alice'' =
        Some \<lparr>name = ''Alice'', score = 10,
              answers = [\<lparr>question = 0, answer = JStr ''4'', correct = True\<rparr>]\<rparr>
   \<and> submitAnswer ex_answered ''alice'' ''ABCD'' (JStr ''3'') = Inr (ex_answered, [])
   \<and> run ex_answered
         [SubmitAnswer ''alice'' ''ABCD'' (JStr ''3''), NextQuestion ''ABCD'',
          StartQuiz ''ABCD''] = Inr ex_restarted
   \<and> list_all (\<lambda>ev. \<not> rejoins ''alice'' ''ABCD'' ev)
         [SubmitAnswer ''alice'' ''ABCD'' (JStr ''3''), NextQuestion ''ABCD'',
          StartQuiz ''ABCD'']
   \<and> map_of (rooms ex_restarted) ''ABCD'' =
         Some (ex_room_q1\<lparr>currentQuestion := 0, timer := Some 2\<rparr>)
   \<and> currentQuestion (ex_room_q1\<lparr>currentQuestion := 0, timer := Some 2\<rparr>) =
         currentQuestion ex_room_answered
   \<and> submitAnswer ex_restarted ''alice'' ''ABCD'' (JStr ''4'') = Inr (ex_restarted, [])
   \<and> answers_distinct ex_restarted"
proof -
  let ?e = "\<lparr>name = ''Alice'', score = 10,
              answers = [\<lparr>question = 0, answer = JStr ''4'', correct = True\<rparr>]\<rparr>"
  let ?evs = "[SubmitAnswer ''alice'' ''ABCD'' (JStr ''3''), NextQuestion ''ABCD'',
          StartQuiz ''ABCD'']"
  let ?r2 = "ex_room_q1\<lparr>currentQuestion := 0, timer := Some 2\<rparr>"
  have s: "submitAnswer ex_q0 ''alice'' ''ABCD'' (JStr ''4'') =
        Inr (ex_answered,
          [(ToSocket ''host'', UpdateLeaderboard
              [\<lparr>name = ''Alice'', score = 10,
                answers = [\<lparr>question = 0, answer = JStr ''4'', correct = True\<rparr>]\<rparr>]),
           (ToSocket ''alice'', ScoreUpdate 10)])"
    using ex_step_submit by simp
  have r: "map_of (rooms ex_answered) ''ABCD'' = Some ex_room_answered"
    by (simp add: ex_defs)
  have e: "map_of (leaderboard ex_room_answered) ''alice'' = Some ?e"
    by (simp add: ex_defs)
  have t1: "submitAnswer ex_answered ''alice'' ''ABCD'' (JStr ''3'') = Inr (ex_answered, [])"
    by (simp add: submitAnswer_def rooms_get_def ex_defs Let_def)
  have t2: "nextQuestion ex_answered ''ABCD'' =
              Inr (ex_q1, [(ToRoom ''ABCD'', NewQuestion (Some ex_question1))])"
    using ex_step_next by simp
  have t3: "startQuiz ex_q1 ''ABCD'' =
              Inr (ex_restarted, [(ToRoom ''ABCD'', NewQuestion (Some ex_question0))])"
    by (simp add: startQuiz_def startQuestionTimer_def rooms_get_def rooms_set_def
          setTimeout_def clearTimeout_def index_opt_def ex_defs Let_def)
  have g1: "run ex_answered ?evs = Inr ex_restarted"
    by (simp add: t1 t2 t3)
  have g2: "list_all (\<lambda>ev. \<not> rejoins ''alice'' ''ABCD'' ev) ?evs"
    by simp
  have g3: "map_of (rooms ex_restarted) ''ABCD'' = Some ?r2"
    by (simp add: ex_defs)
  have g4: "currentQuestion ?r2 = currentQuestion ex_room_answered"
    by (simp add: ex_defs)
  have g5: "map_of (leaderboard ?r2) ''alice'' = Some ?e"
    by (simp add: ex_defs)
  note inst = submitAnswer_once [OF ex_reachable_q0 s, of "[JStr ''3'', JStr ''4'']"]
  from inst have d1: "answers_distinct ex_q0" by (rule conjunct1)
  note inst2 = inst [THEN conjunct2]
  from inst2 have d2: "answers_distinct ex_answered" by (rule conjunct1)
  note inst3 = inst2 [THEN conjunct2]
  from inst3 have d3: "submitAnswers ex_answered ''alice'' ''ABCD'' [JStr ''3'', JStr ''4''] =
      Inr ex_answered" by (rule conjunct1)
  note inst4 = inst3 [THEN conjunct2, rule_format, OF conjI [OF r e]]
  note inst5 = inst4 [THEN conjunct2, THEN conjunct2, rule_format,
      OF conjI [OF g1 conjI [OF g2 conjI [OF g3 conjI [OF g4 g5]]]], of "JStr ''4''"]
  from inst5 have n: "submitAnswer ex_restarted ''alice'' ''ABCD'' (JStr ''4'') =
      Inr (ex_restarted, [])" by (rule conjunct1)
  from inst5 have d4: "answers_distinct ex_restarted"
    by (rule conjunct2 [THEN conjunct1])
  from ex_reachable_q0 s d1 d2 d3 r e t1 g1 g2 g3 g4 n d4 show ?thesis by (intro conjI)
qed

text \<open>
  \<open>joinQuiz\<close> replaces the leaderboard entry of a socket that joins again. In the
  example Alice has answered question 0 and has 10 points; she joins the room again
  while question 0 is current, which puts her entry back to score 0 with no answers,
  and her next \<open>submitAnswer\<close> for question 0 is recorded and scored again.
\<close>

theorem submitAnswer_rejoin_counterexample:
  "reachable ex_q0
   \<and> submitAnswer ex_q0 ''alice'' ''ABCD'' (JStr ''4'') =
        Inr (ex_answered,
          [(ToSocket ''host'', UpdateLeaderboard
              [\<lparr>name = ''Alice'', score = 10,
                answers = [\<lparr>question = 0, answer = JStr ''4'', correct = True\<rparr>]\<rparr>]),
           (ToSocket ''alice'', ScoreUpdate 10)])
   \<and> run ex_answered [JoinQuiz ''alice'' ''abcd'' ''Alice''] = Inr ex_rejoined
   \<and> map_option currentQuestion (map_of (rooms ex_answered) ''ABCD'') = Some 0
   \<and> map_option currentQuestion (map_of (rooms ex_rejoined) ''ABCD'') = Some 0
   \<and> submitAnswer ex_rejoined ''alice'' ''ABCD'' (JStr ''4'') =
        Inr (ex_reanswered,
          [(ToSocket ''host'', UpdateLeaderboard
              [\<lparr>name = ''Alice'', score = 10,
                answers = [\<lparr>question = 0, answer = JStr ''4'', correct = True\<rparr>]\<rparr>]),
           (ToSocket ''alice'', ScoreUpdate 10)])
   \<and> ex_reanswered \<noteq> ex_rejoined"
proof -
  have a: "submitAnswer ex_q0 ''alice'' ''ABCD'' (JStr ''4'') =
        Inr (ex_answered,
          [(ToSocket ''host'', UpdateLeaderboard
              [\<lparr>name = ''Alice'', score = 10,
                answers = [\<lparr>question = 0, answer = JStr ''4'', correct = True\<rparr>]\<rparr>]),
           (ToSocket ''alice'', ScoreUpdate 10)])"
    using ex_step_submit by simp
  have b: "run ex_answered [JoinQuiz ''alice'' ''abcd'' ''Alice''] = Inr ex_rejoined"
    using ex_step_rejoin by simp
  have c: "map_option currentQuestion (map_of (rooms ex_answered) ''ABCD'') = Some 0"
    "map_option currentQuestion (map_of (rooms ex_rejoined) ''ABCD'') = Some 0"
    "ex_reanswered \<noteq> ex_rejoined"
    by (simp_all add: ex_defs)
  have d: "submitAnswer ex_rejoined ''alice'' ''ABCD'' (JStr ''4'') =
        Inr (ex_reanswered,
          [(ToSocket ''host'', UpdateLeaderboard
              [\<lparr>name = ''Alice'', score = 10,
                answers = [\<lparr>question = 0, answer = JStr ''4'', correct = True\<rparr>]\<rparr>]),
           (ToSocket ''alice'', ScoreUpdate 10)])"
    by (simp add: submitAnswer_def rooms_get_def rooms_set_def index_opt_def
          sortedLeaderboard_def js_sort_def Object_values_def ex_defs Let_def)
  from ex_reachable_q0 a b c d show ?thesis by (intro conjI)
qed

section \<open>Timers when the quiz finishes\<close>

text \<open>
  C3. \<open>nextQuestion\<close> cancels the room's timer only through \<open>startQuestionTimer\<close>, in
  the branch that goes on to a further question. In the example run the host asks for
  the next question while the timer of the last question is pending: the quiz
  finishes and the timer stays. It then fires, broadcasts \<open>questionTimeout\<close> to the
  finished room and, after the delay, \<open>nextQuestion\<close> runs once more and broadcasts
  \<open>quizFinished\<close> a second time.
\<close>

theorem nextQuestion_finish_keeps_timer:
  "reachable ex_q1
   \<and> map_option timer (map_of (rooms ex_q1) ''ABCD'') = Some (Some 1)
   \<and> pending ex_q1 = [(1, 20000, QuestionTimer ''ABCD'' 0 ex_question1)]
   \<and> nextQuestion ex_q1 ''ABCD'' =
        Inr (ex_finished,
             [(ToRoom ''ABCD'', QuizFinished
                [\<lparr>name = ''Alice'', score = 10,
                  answers = [\<lparr>question = 0, answer = JStr ''4'', correct = True\<rparr>]\<rparr>])])
   \<and> map_option currentQuestion (map_of (rooms ex_finished) ''ABCD'') = Some 2
   \<and> pending ex_finished = [(1, 20000, QuestionTimer ''ABCD'' 0 ex_question1)]
   \<and> fire ex_finished 1 =
        Inr (ex_stale_timeout,
             [(ToRoom ''ABCD'', QuestionTimeout (JStr ''Paris'')
                [(''alice'', \<lparr>name = ''Alice'', score = 10,
                    answers = [\<lparr>question = 0, answer = JStr ''4'', correct = True\<rparr>]\<rparr>)])])
   \<and> fire ex_stale_timeout 2 =
        Inr (ex_stale_advance,
             [(ToRoom ''ABCD'', QuizFinished
                [\<lparr>name = ''Alice'', score = 10,
                  answers = [\<lparr>question = 0, answer = JStr ''4'', correct = True\<rparr>]\<rparr>])])"
proof -
  have a: "map_option timer (map_of (rooms ex_q1) ''ABCD'') = Some (Some 1)"
    "pending ex_q1 = [(1, 20000, QuestionTimer ''ABCD'' 0 ex_question1)]"
    "map_option currentQuestion (map_of (rooms ex_finished) ''ABCD'') = Some 2"
    "pending ex_finished = [(1, 20000, QuestionTimer ''ABCD'' 0 ex_question1)]"
    by (simp_all add: ex_defs)
  have b: "fire ex_finished 1 =
        Inr (ex_stale_timeout,
             [(ToRoom ''ABCD'', QuestionTimeout (JStr ''Paris'')
                [(''alice'', \<lparr>name = ''Alice'', score = 10,
                    answers = [\<lparr>question = 0, answer = JStr ''4'', correct = True\<rparr>]\<rparr>)])])"
    by (simp add: fire_def clearTimeout_def setTimeout_def captured_leaderboard_def ex_defs
          Let_def)
  have c: "fire ex_stale_timeout 2 =
        Inr (ex_stale_advance,
             [(ToRoom ''ABCD'', QuizFinished
                [\<lparr>name = ''Alice'', score = 10,
                  answers = [\<lparr>question = 0, answer = JStr ''4'', correct = True\<rparr>]\<rparr>])])"
    by (simp add: fire_def clearTimeout_def nextQuestion_def rooms_get_def rooms_set_def
          sortedLeaderboard_def js_sort_def Object_values_def ex_defs Let_def)
  from ex_step_finish have d: "nextQuestion ex_q1 ''ABCD'' =
        Inr (ex_finished,
             [(ToRoom ''ABCD'', QuizFinished
                [\<lparr>name = ''Alice'', score = 10,
                  answers = [\<lparr>question = 0, answer = JStr ''4'', correct = True\<rparr>]\<rparr>])])"
    by simp
  from ex_reachable_q1 a b c d show ?thesis by (intro conjI)
qed

end
